theory Spec2Isabelle
  imports Complex_Main "HOL-Library.Stream"
begin

section \<open>Numbers, time and identifiers\<close>

text \<open>
  The conflict and economy core of the platform lives in the Sequelize models
  (\<^verbatim>\<open>Player\<close>, \<^verbatim>\<open>Country\<close>, \<^verbatim>\<open>War\<close>, \<^verbatim>\<open>BorderPush\<close>), the game routes and the
  periodic socket updates.  The model below follows those sources function by function.

  A JavaScript number is an IEEE double.  The model keeps its special values, because the
  speed formula divides: a number is \<open>NaN\<close>, an infinity, or a finite value, and the finite
  values are taken to be exact reals (rounding, overflow to infinity and the sign of zero
  are not tracked; a zero divisor is the positive zero).  Columns of type \<^verbatim>\<open>INTEGER\<close> are
  \<open>int\<close>.  A \<^verbatim>\<open>Date\<close> is its \<^verbatim>\<open>getTime()\<close>, milliseconds as an \<open>int\<close>.  A UUID is a \<open>nat\<close>.
\<close>

datatype jsnum = NaN | NegInf | Num real | PosInf

type_synonym time = int
type_synonym uuid = nat

definition inf_of_sign :: "real \<Rightarrow> jsnum" where
  "inf_of_sign s = (if 0 < s then PosInf else if s < 0 then NegInf else NaN)"

fun sign_of :: "jsnum \<Rightarrow> real" where
  "sign_of NaN = 0"
| "sign_of NegInf = - 1"
| "sign_of (Num x) = sgn x"
| "sign_of PosInf = 1"

fun js_add :: "jsnum \<Rightarrow> jsnum \<Rightarrow> jsnum" where
  "js_add NaN b = NaN"
| "js_add a NaN = NaN"
| "js_add (Num x) (Num y) = Num (x + y)"
| "js_add PosInf NegInf = NaN"
| "js_add NegInf PosInf = NaN"
| "js_add PosInf b = PosInf"
| "js_add NegInf b = NegInf"
| "js_add (Num x) b = b"

fun js_mul :: "jsnum \<Rightarrow> jsnum \<Rightarrow> jsnum" where
  "js_mul NaN b = NaN"
| "js_mul a NaN = NaN"
| "js_mul (Num x) (Num y) = Num (x * y)"
| "js_mul a b = inf_of_sign (sign_of a * sign_of b)"

fun js_div :: "jsnum \<Rightarrow> jsnum \<Rightarrow> jsnum" where
  "js_div NaN b = NaN"
| "js_div a NaN = NaN"
| "js_div (Num x) (Num y) = (if y = 0 then inf_of_sign (sgn x) else Num (x / y))"
| "js_div (Num x) b = Num 0"
| "js_div a (Num y) = inf_of_sign (sign_of a * (if y < 0 then - 1 else 1))"
| "js_div a b = NaN"

text \<open>Comparison \<^verbatim>\<open><\<close>: false as soon as one side is \<open>NaN\<close>.\<close>

fun js_lt :: "jsnum \<Rightarrow> jsnum \<Rightarrow> bool" where
  "js_lt NaN b = False"
| "js_lt a NaN = False"
| "js_lt (Num x) (Num y) = (x < y)"
| "js_lt a NegInf = False"
| "js_lt PosInf b = False"
| "js_lt NegInf b = True"
| "js_lt (Num x) PosInf = True"

definition js_gt :: "jsnum \<Rightarrow> jsnum \<Rightarrow> bool" where
  "js_gt a b = js_lt b a"

definition js_ge :: "jsnum \<Rightarrow> jsnum \<Rightarrow> bool" where
  "js_ge a b = (a \<noteq> NaN \<and> b \<noteq> NaN \<and> \<not> js_lt a b)"

text \<open>\<^verbatim>\<open>Math.max\<close>, \<^verbatim>\<open>Math.min\<close> and \<^verbatim>\<open>Math.sqrt\<close>: \<open>NaN\<close> as soon as an argument is.\<close>

definition Math_max :: "jsnum \<Rightarrow> jsnum \<Rightarrow> jsnum" where
  "Math_max a b = (if a = NaN \<or> b = NaN then NaN else if js_lt a b then b else a)"

definition Math_min :: "jsnum \<Rightarrow> jsnum \<Rightarrow> jsnum" where
  "Math_min a b = (if a = NaN \<or> b = NaN then NaN else if js_lt b a then b else a)"

fun Math_sqrt :: "jsnum \<Rightarrow> jsnum" where
  "Math_sqrt NaN = NaN"
| "Math_sqrt NegInf = NaN"
| "Math_sqrt (Num x) = (if x < 0 then NaN else Num (sqrt x))"
| "Math_sqrt PosInf = PosInf"

definition Math_PI :: jsnum where
  "Math_PI = Num pi"

definition of_integer :: "int \<Rightarrow> jsnum" where
  "of_integer n = Num (real_of_int n)"

text \<open>
  \<^verbatim>\<open>new Date()\<close> and \<^verbatim>\<open>Date.now()\<close> read the clock.  The clock is the stream of the readings
  still to come; a read takes the head.
\<close>

type_synonym clock = "time stream"

definition new_Date :: "clock \<Rightarrow> time \<times> clock" where
  "new_Date clk = (shd clk, stl clk)"

section \<open>Resource ledger\<close>

text \<open>
  \<^verbatim>\<open>Player\<close> and \<^verbatim>\<open>Country\<close> rows, with the columns the conflict core reads or writes.
\<close>

record player =
  id_p :: uuid
  country_id_p :: "uuid option"
  resources_p :: int
  wars_declared_p :: int

record country =
  id_c :: uuid
  owner_id_c :: "uuid option"
  is_claimed_c :: bool
  resources_c :: int
  resource_generation_rate_c :: jsnum
  is_at_war_c :: bool
  active_wars_c :: int
  territory_lost_c :: jsnum
  territory_gained_c :: jsnum
  wars_won_c :: int
  wars_lost_c :: int

text \<open>
  \<^verbatim>\<open>Player.prototype.consumeResources\<close> and \<^verbatim>\<open>Country.prototype.consumeResources\<close>: the
  result is \<^verbatim>\<open>false\<close> when the balance is too small and the saved instance (a truthy
  value) otherwise.  The model returns the truth value of the result together with the
  instance as the call leaves it.
\<close>

definition consumeResources_p :: "player \<Rightarrow> int \<Rightarrow> bool \<times> player" where
  "consumeResources_p this amount =
     (if resources_p this < amount then (False, this)
      else (True, this\<lparr>resources_p := resources_p this - amount\<rparr>))"

definition consumeResources_c :: "country \<Rightarrow> int \<Rightarrow> bool \<times> country" where
  "consumeResources_c this amount =
     (if resources_c this < amount then (False, this)
      else (True, this\<lparr>resources_c := resources_c this - amount\<rparr>))"

section \<open>Wars and border pushes: the rows\<close>

datatype war_status = WarActive | WarEnded | Ceasefire

record war =
  id_w :: uuid
  aggressor_country_id :: uuid
  defender_country_id :: uuid
  declared_by :: uuid
  declared_at :: time
  status_w :: war_status
  ended_at_w :: "time option"
  ended_by :: "uuid option"
  winner_country_id :: "uuid option"
  duration_minutes :: int
  total_border_pushes :: int

datatype push_status = Active | Successful | Failed | Cancelled

record borderPush =
  id_b :: uuid
  war_id :: uuid
  player_id :: uuid
  source_country_id :: uuid
  target_country_id :: uuid
  started_at :: time
  ended_at :: "time option"
  status :: push_status
  push_strength :: jsnum
  resistance_strength :: jsnum
  terrain_modifier :: jsnum
  distance_pushed :: jsnum
  territory_gained :: jsnum
  resources_consumed :: int
  supporting_soldiers :: int
  defending_soldiers :: int
  duration_seconds :: int
  push_speed :: jsnum
  last_update :: time

text \<open>The result of the progress query.\<close>

record progress =
  distance :: jsnum
  territory :: jsnum
  isActive :: bool

text \<open>
  What \<^verbatim>\<open>io.to('country_' + id).emit(name, data)\<close> sends: the room's country, the push
  and the payload.
\<close>

datatype event =
    Border_push_completed uuid uuid jsnum
  | Border_push_lost uuid uuid jsnum
  | Border_push_progress uuid uuid progress time

text \<open>The store operations, named after the Sequelize calls, as the journal records them.\<close>

datatype db_write =
    War_create uuid
  | War_save uuid
  | War_increment uuid
  | Country_update_bulk "uuid list"
  | Country_update uuid
  | Country_increment uuid
  | BorderPush_create uuid
  | BorderPush_save uuid
  | BorderPush_update_bulk uuid
  | Player_save uuid
  | Player_increment uuid

text \<open>
  The authoritative state: the four tables and the clock, with the journal of the store
  operations done so far and the events sent so far, oldest first.  A request handler or a
  tick runs from start to end on this state (the event loop of the source interleaves
  handlers only at their \<^verbatim>\<open>await\<close>s; that interleaving is not modelled).
\<close>

record world =
  wars :: "war list"
  border_pushes :: "borderPush list"
  countries :: "country list"
  players :: "player list"
  clock :: clock
  journal :: "db_write list"
  emitted :: "event list"

definition logw :: "db_write \<Rightarrow> world \<Rightarrow> world" where
  "logw e w = w\<lparr>journal := journal w @ [e]\<rparr>"

definition emit :: "event \<Rightarrow> world \<Rightarrow> world" where
  "emit e w = w\<lparr>emitted := emitted w @ [e]\<rparr>"

definition now_Date :: "world \<Rightarrow> time \<times> world" where
  "now_Date w = (fst (new_Date (clock w)), w\<lparr>clock := snd (new_Date (clock w))\<rparr>)"

section \<open>Border push engine\<close>

text \<open>
  The column validators of the \<^verbatim>\<open>BorderPush\<close> model (\<^verbatim>\<open>validate: { min, max }\<close>).
  \<open>valid_push\<close> is the data invariant they give a stored push: every number finite and
  within its bounds.
\<close>

definition between :: "real \<Rightarrow> real \<Rightarrow> jsnum \<Rightarrow> bool" where
  "between lo hi v = (case v of Num x \<Rightarrow> lo \<le> x \<and> x \<le> hi | _ \<Rightarrow> False)"

definition at_least :: "real \<Rightarrow> jsnum \<Rightarrow> bool" where
  "at_least lo v = (case v of Num x \<Rightarrow> lo \<le> x | _ \<Rightarrow> False)"

definition valid_push :: "borderPush \<Rightarrow> bool" where
  "valid_push p =
     (between (1/10) 10 (push_strength p) \<and> between (1/10) 10 (resistance_strength p)
      \<and> between (1/10) 5 (terrain_modifier p) \<and> at_least 0 (distance_pushed p)
      \<and> at_least 0 (territory_gained p) \<and> 0 \<le> resources_consumed p
      \<and> 1 \<le> supporting_soldiers p \<and> 0 \<le> defending_soldiers p
      \<and> 0 \<le> duration_seconds p \<and> between (1/10) 5 (push_speed p))"

text \<open>
  What a save checks.  Sequelize validates the columns whose value the instance changed,
  and throws when a validator fails; nothing is written then.  Its \<^verbatim>\<open>min\<close> and \<^verbatim>\<open>max\<close>
  validators read the value with \<^verbatim>\<open>parseFloat\<close> and pass when the result is \<open>NaN\<close>
  (\<^verbatim>\<open>isNaN(number) || number >= val\<close>).  \<open>validate_b prev this\<close> holds when every column that
  differs between \<open>prev\<close> and \<open>this\<close> passes its validators.
\<close>

definition validator_min :: "real \<Rightarrow> jsnum \<Rightarrow> bool" where
  "validator_min lo v = (case v of NaN \<Rightarrow> True | NegInf \<Rightarrow> False | Num x \<Rightarrow> lo \<le> x | PosInf \<Rightarrow> True)"

definition validator_max :: "real \<Rightarrow> jsnum \<Rightarrow> bool" where
  "validator_max hi v = (case v of NaN \<Rightarrow> True | NegInf \<Rightarrow> True | Num x \<Rightarrow> x \<le> hi | PosInf \<Rightarrow> False)"

definition validate_b :: "borderPush \<Rightarrow> borderPush \<Rightarrow> bool" where
  "validate_b prev this =
     ((push_strength this = push_strength prev
         \<or> (validator_min (1/10) (push_strength this) \<and> validator_max 10 (push_strength this)))
      \<and> (resistance_strength this = resistance_strength prev
         \<or> (validator_min (1/10) (resistance_strength this)
             \<and> validator_max 10 (resistance_strength this)))
      \<and> (terrain_modifier this = terrain_modifier prev
         \<or> (validator_min (1/10) (terrain_modifier this) \<and> validator_max 5 (terrain_modifier this)))
      \<and> (distance_pushed this = distance_pushed prev \<or> validator_min 0 (distance_pushed this))
      \<and> (territory_gained this = territory_gained prev \<or> validator_min 0 (territory_gained this))
      \<and> (resources_consumed this = resources_consumed prev \<or> 0 \<le> resources_consumed this)
      \<and> (supporting_soldiers this = supporting_soldiers prev \<or> 1 \<le> supporting_soldiers this)
      \<and> (defending_soldiers this = defending_soldiers prev \<or> 0 \<le> defending_soldiers this)
      \<and> (duration_seconds this = duration_seconds prev \<or> 0 \<le> duration_seconds this)
      \<and> (push_speed this = push_speed prev
         \<or> (validator_min (1/10) (push_speed this) \<and> validator_max 5 (push_speed this))))"

datatype js_error = Error string

definition ValidationError :: js_error where
  "ValidationError = Error ''SequelizeValidationError''"

text \<open>The \<^verbatim>\<open>beforeCreate\<close> hook: the initial speed.\<close>

definition beforeCreate_b :: "borderPush \<Rightarrow> borderPush" where
  "beforeCreate_b borderPush =
     (let baseSpeed = Num 1;
          strengthMultiplier = js_div (push_strength borderPush) (resistance_strength borderPush);
          terrainMultiplier = js_div (Num 1) (terrain_modifier borderPush);
          p1 = borderPush\<lparr>push_speed := js_mul (js_mul baseSpeed strengthMultiplier) terrainMultiplier\<rparr>
      in p1\<lparr>push_speed := Math_max (Num (1/10)) (Math_min (Num 5) (push_speed p1))\<rparr>)"

text \<open>
  The \<^verbatim>\<open>beforeUpdate\<close> hook; \<open>changed_status\<close> is \<^verbatim>\<open>borderPush.changed('status')\<close>.
  \<^verbatim>\<open>Math.floor(durationMs / 1000)\<close> on integers is \<open>div\<close>, which rounds down.
\<close>

definition beforeUpdate_b :: "bool \<Rightarrow> borderPush \<Rightarrow> world \<Rightarrow> borderPush \<times> world" where
  "beforeUpdate_b changed_status borderPush w =
     (let (p1, w1) =
            (if changed_status \<and> status borderPush \<noteq> Active
             then (let (t, w') = now_Date w;
                       durationMs = t - started_at borderPush
                   in (borderPush\<lparr>ended_at := Some t, duration_seconds := durationMs div 1000\<rparr>, w'))
             else (borderPush, w));
          (t2, w2) = now_Date w1
      in (p1\<lparr>last_update := t2\<rparr>, w2))"

text \<open>The \<^verbatim>\<open>afterUpdate\<close> hook: \<^verbatim>\<open>War.increment('total_border_pushes', { where: { id } })\<close>.\<close>

definition afterUpdate_b :: "bool \<Rightarrow> borderPush \<Rightarrow> world \<Rightarrow> world" where
  "afterUpdate_b changed_status borderPush w =
     (if changed_status \<and> status borderPush \<noteq> Active
      then logw (War_increment (war_id borderPush))
             (w\<lparr>wars := map (\<lambda>r. if id_w r = war_id borderPush
                                  then r\<lparr>total_border_pushes := total_border_pushes r + 1\<rparr> else r)
                           (wars w)\<rparr>)
      else w)"

text \<open>
  \<^verbatim>\<open>this.save()\<close> on a loaded push, in Sequelize's order: validation of the changed
  columns, the \<^verbatim>\<open>beforeUpdate\<close> hook, validation of the columns the hook changed, the
  \<^verbatim>\<open>UPDATE\<close> (the row of that id takes the instance's values), the \<^verbatim>\<open>afterUpdate\<close> hook.
  \<open>prev\<close> is the instance as it was loaded or last saved, against which \<^verbatim>\<open>changed\<close>
  compares.  The result is \<^verbatim>\<open>this\<close> as the call leaves it, the error the promise rejects
  with (\<open>None\<close> when it resolves), and the state.
\<close>

definition save_b :: "borderPush \<Rightarrow> borderPush \<Rightarrow> world \<Rightarrow> borderPush \<times> js_error option \<times> world" where
  "save_b prev this w =
     (if \<not> validate_b prev this then (this, Some ValidationError, w)
      else (let changed_status = (status this \<noteq> status prev);
                (this1, w1) = beforeUpdate_b changed_status this w
            in if \<not> validate_b this this1 then (this1, Some ValidationError, w1)
               else (let w2 = logw (BorderPush_save (id_b this1))
                                (w1\<lparr>border_pushes := map (\<lambda>r. if id_b r = id_b this1 then this1 else r)
                                                        (border_pushes w1)\<rparr>)
                     in (this1, None, afterUpdate_b changed_status this1 w2))))"

text \<open>
  The instance methods.  The query returns its result together with \<^verbatim>\<open>this\<close> as the call
  leaves it, and the state; the methods that save return what \<open>save_b\<close> returns.
\<close>

definition calculateCurrentProgress :: "borderPush \<Rightarrow> world \<Rightarrow> (progress \<times> borderPush) \<times> world" where
  "calculateCurrentProgress this w =
     (if status this \<noteq> Active
      then ((\<lparr>distance = distance_pushed this, territory = territory_gained this,
               isActive = False\<rparr>, this), w)
      else (let (now, w1) = now_Date w;
                elapsedSeconds = js_div (of_integer (now - last_update this)) (Num 1000);
                additionalDistance = js_mul (push_speed this) elapsedSeconds
            in ((\<lparr>distance = js_add (distance_pushed this) additionalDistance,
                    territory = territory_gained this, isActive = True\<rparr>, this), w1)))"

definition updateProgress :: "borderPush \<Rightarrow> world \<Rightarrow> borderPush \<times> js_error option \<times> world" where
  "updateProgress this w =
     (if status this \<noteq> Active then (this, None, w)
      else (let ((progress, this0), w1) = calculateCurrentProgress this w;
                this1 = this0\<lparr>distance_pushed := distance progress\<rparr>;
                (t, w2) = now_Date w1;
                this2 = this1\<lparr>last_update := t\<rparr>;
                radiusKm = js_div (distance_pushed this2) (Num 1000);
                this3 = this2\<lparr>territory_gained := js_mul (js_mul Math_PI radiusKm) radiusKm\<rparr>
            in save_b this this3 w2))"

definition addSupportingSoldier :: "borderPush \<Rightarrow> world \<Rightarrow> borderPush \<times> js_error option \<times> world" where
  "addSupportingSoldier this w =
     (let this1 = this\<lparr>supporting_soldiers := supporting_soldiers this + 1\<rparr>;
          baseStrength = Num 1;
          soldierMultiplier = Math_sqrt (of_integer (supporting_soldiers this1));
          this2 = this1\<lparr>push_strength := js_mul baseStrength soldierMultiplier\<rparr>;
          strengthMultiplier = js_div (push_strength this2) (resistance_strength this2);
          terrainMultiplier = js_div (Num 1) (terrain_modifier this2);
          baseSpeed = Num 1;
          this3 = this2\<lparr>push_speed :=
                    Math_max (Num (1/10))
                      (Math_min (Num 5) (js_mul (js_mul baseSpeed strengthMultiplier) terrainMultiplier))\<rparr>
      in save_b this this3 w)"

definition addDefendingSoldier :: "borderPush \<Rightarrow> world \<Rightarrow> borderPush \<times> js_error option \<times> world" where
  "addDefendingSoldier this w =
     (let this1 = this\<lparr>defending_soldiers := defending_soldiers this + 1\<rparr>;
          baseResistance = Num 1;
          defenseMultiplier = Math_sqrt (of_integer (defending_soldiers this1));
          this2 = this1\<lparr>resistance_strength := js_mul baseResistance defenseMultiplier\<rparr>;
          strengthMultiplier = js_div (push_strength this2) (resistance_strength this2);
          terrainMultiplier = js_div (Num 1) (terrain_modifier this2);
          baseSpeed = Num 1;
          this3 = this2\<lparr>push_speed :=
                    Math_max (Num (1/10))
                      (Math_min (Num 5) (js_mul (js_mul baseSpeed strengthMultiplier) terrainMultiplier))\<rparr>
      in save_b this this3 w)"

text \<open>
  \<^verbatim>\<open>stopPush(reason)\<close> throws on a push that is not active, and when one of its two saves
  rejects; \<open>reason_successful\<close> is \<^verbatim>\<open>reason === 'successful'\<close>.
\<close>

definition stopPush :: "bool \<Rightarrow> borderPush \<Rightarrow> world \<Rightarrow> (js_error + borderPush) \<times> world" where
  "stopPush reason_successful this w =
     (if status this \<noteq> Active then (Inl (Error ''Border push is not active''), w)
      else (case updateProgress this w of
              (this1, Some e, w1) \<Rightarrow> (Inl e, w1)
            | (this1, None, w1) \<Rightarrow>
                (let this2 = this1\<lparr>status := (if reason_successful then Successful else Cancelled)\<rparr>;
                     (t, w2) = now_Date w1;
                     this3 = this2\<lparr>ended_at := Some t\<rparr>
                 in case save_b this1 this3 w2 of
                      (this4, Some e, w3) \<Rightarrow> (Inl e, w3)
                    | (this4, None, w3) \<Rightarrow> (Inr this4, w3))))"

section \<open>Routes\<close>

text \<open>
  A response is its HTTP status with the \<^verbatim>\<open>error\<close> field of its body, or the \<^verbatim>\<open>message\<close>
  field when the request succeeded.  The handlers start after the authentication and
  request-validation middleware: \<open>player\<close> is \<^verbatim>\<open>req.player\<close>.  History records and the
  broadcasts of the routes are left out.
\<close>

datatype response = Reply nat string

definition findByPk_c :: "uuid \<Rightarrow> world \<Rightarrow> country option" where
  "findByPk_c k w = find (\<lambda>r. id_c r = k) (countries w)"

definition findByPk_w :: "uuid \<Rightarrow> world \<Rightarrow> war option" where
  "findByPk_w k w = find (\<lambda>r. id_w r = k) (wars w)"

text \<open>\<^verbatim>\<open>findOne\<close> with \<^verbatim>\<open>order: [[column, 'DESC']]\<close>: a row with the largest value.\<close>

fun latest_by :: "('a \<Rightarrow> time) \<Rightarrow> 'a list \<Rightarrow> 'a option" where
  "latest_by key [] = None"
| "latest_by key (x # xs) =
     (case latest_by key xs of None \<Rightarrow> Some x
      | Some y \<Rightarrow> if key y \<le> key x then Some x else Some y)"

subsection \<open>The \<^verbatim>\<open>War\<close> model\<close>

text \<open>
  \<^verbatim>\<open>War.create\<close>: defaults, the \<^verbatim>\<open>beforeCreate\<close> hook, the insert under the unique index
  \<^verbatim>\<open>unique_active_war_between_countries\<close>, the \<^verbatim>\<open>afterCreate\<close> hook (a bulk
  \<^verbatim>\<open>Country.update\<close> on the two countries).  The new id is an input.
\<close>

definition afterCreate_w :: "war \<Rightarrow> world \<Rightarrow> world" where
  "afterCreate_w war w =
     logw (Country_update_bulk [aggressor_country_id war, defender_country_id war])
       (w\<lparr>countries := map (\<lambda>c. if id_c c = aggressor_country_id war \<or> id_c c = defender_country_id war
                                 then c\<lparr>is_at_war_c := True, active_wars_c := active_wars_c c + 1\<rparr>
                                 else c) (countries w)\<rparr>)"

definition War_create_row :: "uuid \<Rightarrow> uuid \<Rightarrow> uuid \<Rightarrow> uuid \<Rightarrow> world \<Rightarrow> (js_error + war) \<times> world" where
  "War_create_row new_id aggressor defender declarer w =
     (let (t, w1) = now_Date w;
          war = \<lparr>id_w = new_id, aggressor_country_id = aggressor, defender_country_id = defender,
                 declared_by = declarer, declared_at = t, status_w = WarActive, ended_at_w = None,
                 ended_by = None, winner_country_id = None, duration_minutes = 0,
                 total_border_pushes = 0\<rparr>
      in if aggressor_country_id war = defender_country_id war
         then (Inl (Error ''A country cannot declare war on itself''), w1)
         else if find (\<lambda>r. aggressor_country_id r = aggressor \<and> defender_country_id r = defender
                            \<and> status_w r = WarActive) (wars w1) \<noteq> None
         then (Inl (Error ''unique_active_war_between_countries''), w1)
         else (Inr war, afterCreate_w war (logw (War_create new_id) (w1\<lparr>wars := wars w1 @ [war]\<rparr>))))"

definition canEndWar :: "war \<Rightarrow> uuid \<Rightarrow> bool" where
  "canEndWar this playerId = (declared_by this = playerId)"

definition beforeUpdate_w :: "bool \<Rightarrow> war \<Rightarrow> world \<Rightarrow> war \<times> world" where
  "beforeUpdate_w changed_status war w =
     (if changed_status \<and> status_w war = WarEnded
      then (let (t, w1) = now_Date w;
                durationMs = t - declared_at war
            in (war\<lparr>ended_at_w := Some t, duration_minutes := durationMs div (1000 * 60)\<rparr>, w1))
      else (war, w))"

text \<open>
  The \<^verbatim>\<open>afterUpdate\<close> hook of \<^verbatim>\<open>War\<close>: the bulk decrement floored at 0, then for each of
  the two countries the reset of \<^verbatim>\<open>is_at_war\<close>, then the winner's statistics.
\<close>

definition reset_at_war :: "uuid \<Rightarrow> world \<Rightarrow> world" where
  "reset_at_war countryId w =
     (case findByPk_c countryId w of
        None \<Rightarrow> w
      | Some country \<Rightarrow>
          if active_wars_c country \<le> 0
          then logw (Country_update countryId)
                 (w\<lparr>countries := map (\<lambda>c. if id_c c = id_c country
                                           then c\<lparr>is_at_war_c := False, active_wars_c := 0\<rparr> else c)
                                     (countries w)\<rparr>)
          else w)"

definition increment_c :: "(country \<Rightarrow> country) \<Rightarrow> uuid \<Rightarrow> world \<Rightarrow> world" where
  "increment_c bump countryId w =
     logw (Country_increment countryId)
       (w\<lparr>countries := map (\<lambda>c. if id_c c = countryId then bump c else c) (countries w)\<rparr>)"

definition afterUpdate_w :: "bool \<Rightarrow> war \<Rightarrow> world \<Rightarrow> world" where
  "afterUpdate_w changed_status war w =
     (if changed_status \<and> status_w war = WarEnded
      then (let w1 = logw (Country_update_bulk [aggressor_country_id war, defender_country_id war])
                       (w\<lparr>countries :=
                            map (\<lambda>c. if id_c c = aggressor_country_id war \<or> id_c c = defender_country_id war
                                     then c\<lparr>active_wars_c := max (active_wars_c c - 1) 0\<rparr> else c)
                                (countries w)\<rparr>);
                w2 = reset_at_war (defender_country_id war) (reset_at_war (aggressor_country_id war) w1)
            in case winner_country_id war of
                 None \<Rightarrow> w2
               | Some winner \<Rightarrow>
                   (let loserCountryId = (if winner = aggressor_country_id war
                                          then defender_country_id war else aggressor_country_id war)
                    in increment_c (\<lambda>c. c\<lparr>wars_lost_c := wars_lost_c c + 1\<rparr>) loserCountryId
                         (increment_c (\<lambda>c. c\<lparr>wars_won_c := wars_won_c c + 1\<rparr>) winner w2)))
      else w)"

text \<open>
  \<^verbatim>\<open>this.save()\<close> on a loaded war, as for a push.  Of the columns of the model, the
  \<^verbatim>\<open>War\<close> validators bound \<open>duration_minutes\<close> and \<open>total_border_pushes\<close> from below by 0.
\<close>

definition validate_w :: "war \<Rightarrow> war \<Rightarrow> bool" where
  "validate_w prev this =
     ((duration_minutes this = duration_minutes prev \<or> 0 \<le> duration_minutes this)
      \<and> (total_border_pushes this = total_border_pushes prev \<or> 0 \<le> total_border_pushes this))"

definition save_w :: "war \<Rightarrow> war \<Rightarrow> world \<Rightarrow> war \<times> js_error option \<times> world" where
  "save_w prev this w =
     (if \<not> validate_w prev this then (this, Some ValidationError, w)
      else (let changed_status = (status_w this \<noteq> status_w prev);
                (this1, w1) = beforeUpdate_w changed_status this w
            in if \<not> validate_w this this1 then (this1, Some ValidationError, w1)
               else (let w2 = logw (War_save (id_w this1))
                                (w1\<lparr>wars := map (\<lambda>r. if id_w r = id_w this1 then this1 else r) (wars w1)\<rparr>)
                     in (this1, None, afterUpdate_w changed_status this1 w2))))"

definition endWar :: "uuid \<Rightarrow> uuid option \<Rightarrow> war \<Rightarrow> world \<Rightarrow> (js_error + war) \<times> world" where
  "endWar endedBy winnerCountryId this w =
     (if status_w this \<noteq> WarActive then (Inl (Error ''War is not active''), w)
      else (let (t, w1) = now_Date w;
                this1 = this\<lparr>status_w := WarEnded, ended_by := Some endedBy,
                              winner_country_id := winnerCountryId, ended_at_w := Some t\<rparr>
            in case save_w this this1 w1 of
                 (this2, Some e, w2) \<Rightarrow> (Inl e, w2)
               | (this2, None, w2) \<Rightarrow> (Inr this2, w2)))"

subsection \<open>\<^verbatim>\<open>POST /api/game/declare-war\<close>\<close>

text \<open>
  \<open>cooldown\<close> is \<^verbatim>\<open>parseInt(process.env.WAR_DECLARATION_COOLDOWN_MS) || 300000\<close>.  An
  exception inside the handler reaches its \<^verbatim>\<open>catch\<close>, which answers 500.
\<close>

definition same_pair :: "uuid \<Rightarrow> uuid \<Rightarrow> war \<Rightarrow> bool" where
  "same_pair source target r =
     ((aggressor_country_id r = source \<and> defender_country_id r = target)
      \<or> (aggressor_country_id r = target \<and> defender_country_id r = source))"

definition existingWar :: "uuid \<Rightarrow> uuid \<Rightarrow> world \<Rightarrow> war option" where
  "existingWar source target w =
     find (\<lambda>r. same_pair source target r \<and> status_w r = WarActive) (wars w)"

definition increment_wars_declared :: "player \<Rightarrow> world \<Rightarrow> world" where
  "increment_wars_declared pl w =
     logw (Player_increment (id_p pl))
       (w\<lparr>players := map (\<lambda>r. if id_p r = id_p pl
                                then r\<lparr>wars_declared_p := wars_declared_p r + 1\<rparr> else r)
                          (players w)\<rparr>)"

definition create_war :: "uuid \<Rightarrow> player \<Rightarrow> country \<Rightarrow> country \<Rightarrow> world \<Rightarrow> response \<times> world" where
  "create_war new_id pl sourceCountry targetCountry w =
     (case War_create_row new_id (id_c sourceCountry) (id_c targetCountry) (id_p pl) w of
        (Inl e, w1) \<Rightarrow> (Reply 500 ''Internal Server Error'', w1)
      | (Inr war, w1) \<Rightarrow> (Reply 201 ''War declared successfully'', increment_wars_declared pl w1))"

text \<open>
  The handler in two parts.  \<open>declare_war_lookup\<close> is everything up to the cooldown check:
  it only reads, and ends with an answer or with the two countries found.  \<open>create_war\<close>
  is the rest.  \<open>declare_war\<close> runs one after the other with nothing in between; the
  handler itself awaits the store at each query, so other handlers can run between its
  lookup and its \<^verbatim>\<open>War.create\<close>.
\<close>

definition check_cooldown :: "int \<Rightarrow> player \<Rightarrow> country \<Rightarrow> country \<Rightarrow> world \<Rightarrow> (response + country \<times> country) \<times> world" where
  "check_cooldown cooldown pl sourceCountry targetCountry w =
     (case latest_by declared_at (filter (\<lambda>r. declared_by r = id_p pl) (wars w)) of
        None \<Rightarrow> (Inr (sourceCountry, targetCountry), w)
      | Some lastWar \<Rightarrow>
          (let (now, w1) = now_Date w;
               timeSinceLastWar = now - declared_at lastWar
           in if timeSinceLastWar < cooldown then (Inl (Reply 429 ''Rate Limited''), w1)
              else (Inr (sourceCountry, targetCountry), w1)))"

definition declare_war_lookup :: "int \<Rightarrow> player \<Rightarrow> uuid \<Rightarrow> world \<Rightarrow> (response + country \<times> country) \<times> world" where
  "declare_war_lookup cooldown pl target_id w =
     (case country_id_p pl of
        None \<Rightarrow> (Inl (Reply 400 ''Bad Request''), w)
      | Some cid \<Rightarrow>
         (case findByPk_c cid w of
            None \<Rightarrow> (Inl (Reply 403 ''Access Denied''), w)
          | Some sourceCountry \<Rightarrow>
             if owner_id_c sourceCountry \<noteq> Some (id_p pl) then (Inl (Reply 403 ''Access Denied''), w)
             else (case findByPk_c target_id w of
                     None \<Rightarrow> (Inl (Reply 404 ''Not Found''), w)
                   | Some targetCountry \<Rightarrow>
                      if \<not> is_claimed_c targetCountry then (Inl (Reply 400 ''Bad Request''), w)
                      else if id_c sourceCountry = id_c targetCountry
                      then (Inl (Reply 400 ''Bad Request''), w)
                      else if existingWar (id_c sourceCountry) (id_c targetCountry) w \<noteq> None
                      then (Inl (Reply 409 ''Conflict''), w)
                      else check_cooldown cooldown pl sourceCountry targetCountry w)))"

definition declare_war :: "int \<Rightarrow> uuid \<Rightarrow> player \<Rightarrow> uuid \<Rightarrow> world \<Rightarrow> response \<times> world" where
  "declare_war cooldown new_id pl target_id w =
     (case declare_war_lookup cooldown pl target_id w of
        (Inl answer, w1) \<Rightarrow> (answer, w1)
      | (Inr (sourceCountry, targetCountry), w1) \<Rightarrow> create_war new_id pl sourceCountry targetCountry w1)"

subsection \<open>\<^verbatim>\<open>POST /api/game/end-war/:id\<close>\<close>

text \<open>
  The cascade is the static \<^verbatim>\<open>BorderPush.update({ status: 'cancelled' }, { where })\<close>.
  Sequelize turns a static \<^verbatim>\<open>Model.update\<close> into one \<^verbatim>\<open>UPDATE\<close> of the given columns on
  the rows that match; the instance hooks \<^verbatim>\<open>beforeUpdate\<close> and \<^verbatim>\<open>afterUpdate\<close> run only
  under the option \<^verbatim>\<open>individualHooks: true\<close>, which the call does not pass.
\<close>

definition BorderPush_update_cancelled :: "uuid \<Rightarrow> world \<Rightarrow> world" where
  "BorderPush_update_cancelled warId w =
     logw (BorderPush_update_bulk warId)
       (w\<lparr>border_pushes := map (\<lambda>r. if war_id r = warId \<and> status r = Active
                                      then r\<lparr>status := Cancelled\<rparr> else r)
                                (border_pushes w)\<rparr>)"

definition end_war :: "uuid \<Rightarrow> player \<Rightarrow> world \<Rightarrow> response \<times> world" where
  "end_war warId pl w =
     (case findByPk_w warId w of
        None \<Rightarrow> (Reply 404 ''Not Found'', w)
      | Some war \<Rightarrow>
          if status_w war \<noteq> WarActive then (Reply 400 ''Bad Request'', w)
          else if \<not> canEndWar war (id_p pl) then (Reply 403 ''Access Denied'', w)
          else (case endWar (id_p pl) None war w of
                  (Inl e, w1) \<Rightarrow> (Reply 500 ''Internal Server Error'', w1)
                | (Inr war1, w1) \<Rightarrow>
                    (Reply 200 ''War ended successfully'', BorderPush_update_cancelled (id_w war1) w1)))"

subsection \<open>\<^verbatim>\<open>POST /api/game/border-push\<close>\<close>

text \<open>
  \<open>cooldown\<close> is \<^verbatim>\<open>parseInt(process.env.BORDER_PUSH_COOLDOWN_MS) || 5000\<close>.  A player
  without a country has \<^verbatim>\<open>country_id\<close> null, which no war's aggressor matches.

  \<^verbatim>\<open>BorderPush.create\<close>: the defaults of the columns that the route does not give
  (\<^verbatim>\<open>status\<close>, \<^verbatim>\<open>resistance_strength\<close>, \<^verbatim>\<open>distance_pushed\<close>, the counts, \<^verbatim>\<open>push_speed\<close>,
  the two timestamps), the \<^verbatim>\<open>beforeCreate\<close> hook, the insert.  The position and the
  direction of the push are not modelled.
\<close>

definition BorderPush_create_row ::
    "uuid \<Rightarrow> uuid \<Rightarrow> uuid \<Rightarrow> uuid \<Rightarrow> uuid \<Rightarrow> jsnum \<Rightarrow> jsnum \<Rightarrow> int \<Rightarrow> world \<Rightarrow> borderPush \<times> world" where
  "BorderPush_create_row new_id warId playerId source target strength terrain consumed w =
     (let (t1, w1) = now_Date w;
          (t2, w2) = now_Date w1;
          borderPush = beforeCreate_b
            \<lparr>id_b = new_id, war_id = warId, player_id = playerId, source_country_id = source,
             target_country_id = target, started_at = t1, ended_at = None, status = Active,
             push_strength = strength, resistance_strength = Num 1, terrain_modifier = terrain,
             distance_pushed = Num 0, territory_gained = Num 0, resources_consumed = consumed,
             supporting_soldiers = 1, defending_soldiers = 0, duration_seconds = 0,
             push_speed = Num 1, last_update = t2\<rparr>
      in (borderPush, logw (BorderPush_create new_id)
                        (w2\<lparr>border_pushes := border_pushes w2 @ [borderPush]\<rparr>)))"

text \<open>\<^verbatim>\<open>req.player.consumeResources(cost)\<close> with its \<^verbatim>\<open>save\<close>: the store follows when it ran.\<close>

definition consume_and_save :: "player \<Rightarrow> int \<Rightarrow> world \<Rightarrow> (bool \<times> player) \<times> world" where
  "consume_and_save pl amount w =
     (case consumeResources_p pl amount of
        (False, pl1) \<Rightarrow> ((False, pl1), w)
      | (True, pl1) \<Rightarrow>
          ((True, pl1), logw (Player_save (id_p pl1))
                          (w\<lparr>players := map (\<lambda>r. if id_p r = id_p pl1 then pl1 else r) (players w)\<rparr>)))"

definition create_push_then_consume ::
    "uuid \<Rightarrow> player \<Rightarrow> uuid \<Rightarrow> war \<Rightarrow> uuid \<Rightarrow> world \<Rightarrow> response \<times> world" where
  "create_push_then_consume new_id pl cid war target_id w =
     (let resourceCost = 10
      in if resources_p pl < resourceCost then (Reply 400 ''Insufficient Resources'', w)
         else (let (borderPush, w1) =
                     BorderPush_create_row new_id (id_w war) (id_p pl) cid
                       target_id (Num 1) (Num 1) resourceCost w;
                   (consumed, w2) = consume_and_save pl resourceCost w1
               in (Reply 201 ''Border push initiated'', w2)))"

definition border_push :: "int \<Rightarrow> uuid \<Rightarrow> player \<Rightarrow> uuid \<Rightarrow> world \<Rightarrow> response \<times> world" where
  "border_push cooldown new_id pl target_id w =
     (case country_id_p pl of
        None \<Rightarrow> (Reply 400 ''Bad Request'', w)
      | Some cid \<Rightarrow>
         (case find (\<lambda>r. aggressor_country_id r = cid \<and> defender_country_id r = target_id
                         \<and> status_w r = WarActive) (wars w) of
            None \<Rightarrow> (Reply 400 ''Bad Request'', w)
          | Some war \<Rightarrow>
             (case latest_by started_at (filter (\<lambda>r. player_id r = id_p pl) (border_pushes w)) of
                None \<Rightarrow> create_push_then_consume new_id pl cid war target_id w
              | Some lastPush \<Rightarrow>
                  if status lastPush = Active then (Reply 400 ''Bad Request'', w)
                  else (let (now, w1) = now_Date w;
                            timeSinceLastPush = now - started_at lastPush
                        in if timeSinceLastPush < cooldown then (Reply 429 ''Rate Limited'', w1)
                           else create_push_then_consume new_id pl cid war target_id w1))))"

section \<open>Tick scheduler\<close>

text \<open>
  The first interval of \<^verbatim>\<open>startPeriodicUpdates\<close>, every 5 seconds.  \<open>tick_push\<close> is the body
  of its \<^verbatim>\<open>for\<close> loop; an exception leaves the loop for the \<^verbatim>\<open>catch\<close> around it.
\<close>

definition findActivePushes :: "world \<Rightarrow> borderPush list" where
  "findActivePushes w = filter (\<lambda>r. status r = Active) (border_pushes w)"

definition tick_push :: "borderPush \<Rightarrow> world \<Rightarrow> (js_error + borderPush) \<times> world" where
  "tick_push push w =
     (let ((progress, push0), w1) = calculateCurrentProgress push w
      in if js_gt (distance progress) (Num 10000)
         then (case stopPush True push0 w1 of
                 (Inl e, w2) \<Rightarrow> (Inl e, w2)
               | (Inr push1, w2) \<Rightarrow>
                   (Inr push1,
                    emit (Border_push_lost (target_country_id push1) (id_b push1) (territory progress))
                      (emit (Border_push_completed (source_country_id push1) (id_b push1)
                               (territory progress)) w2)))
         else (let (t, w2) = now_Date w1
               in (Inr push0,
                   emit (Border_push_progress (target_country_id push0) (id_b push0) progress t)
                     (emit (Border_push_progress (source_country_id push0) (id_b push0) progress t)
                        w2))))"

fun tick_pushes :: "borderPush list \<Rightarrow> world \<Rightarrow> world" where
  "tick_pushes [] w = w"
| "tick_pushes (push # rest) w =
     (case tick_push push w of
        (Inl e, w1) \<Rightarrow> w1
      | (Inr push1, w1) \<Rightarrow> tick_pushes rest w1)"

definition conflict_tick :: "world \<Rightarrow> world" where
  "conflict_tick w = tick_pushes (findActivePushes w) w"

section \<open>The specification's formulas and sample data\<close>

text \<open>
  The speed formula and the candidate distance as the specification words them, to compare
  with what the code computes: \<open>clamp(v, lo, hi)\<close>,
  \<open>push_speed = clamp(1.0 * (push_strength / resistance_strength) * (1 / terrain_modifier), 0.1, 5.0)\<close>
  and \<open>candidate_distance = distance_pushed + push_speed * elapsed\<close>, the elapsed time in
  seconds.
\<close>

definition spec_clamp :: "jsnum \<Rightarrow> jsnum \<Rightarrow> jsnum \<Rightarrow> jsnum" where
  "spec_clamp v lo hi = (if js_lt v lo then lo else if js_lt hi v then hi else v)"

definition spec_push_speed :: "borderPush \<Rightarrow> jsnum" where
  "spec_push_speed p =
     spec_clamp (js_mul (js_mul (Num 1) (js_div (push_strength p) (resistance_strength p)))
                        (js_div (Num 1) (terrain_modifier p)))
                (Num (1/10)) (Num 5)"

definition spec_candidate_distance :: "borderPush \<Rightarrow> time \<Rightarrow> jsnum" where
  "spec_candidate_distance p now =
     js_add (distance_pushed p)
       (js_mul (push_speed p) (js_div (of_integer (now - last_update p)) (Num 1000)))"

text \<open>Finite numbers, and the positive ones among them.\<close>

definition finite_num :: "jsnum \<Rightarrow> bool" where
  "finite_num v = (case v of Num x \<Rightarrow> True | _ \<Rightarrow> False)"

definition positive :: "jsnum \<Rightarrow> bool" where
  "positive v = (case v of Num x \<Rightarrow> 0 < x | _ \<Rightarrow> False)"

text \<open>
  A small world for the examples: countries 1 and 2 at war since time 0 (declared by
  player 1, the owner of country 1), and one active push of player 1, 9999 m far, at
  1 m/s.  Every clock reading is \<open>now\<close>.
\<close>

definition example_push :: borderPush where
  "example_push =
     \<lparr>id_b = 7, war_id = 1, player_id = 1, source_country_id = 1, target_country_id = 2,
      started_at = 0, ended_at = None, status = Active, push_strength = Num 1,
      resistance_strength = Num 1, terrain_modifier = Num 1, distance_pushed = Num 9999,
      territory_gained = Num 0, resources_consumed = 10, supporting_soldiers = 1,
      defending_soldiers = 0, duration_seconds = 0, push_speed = Num 1, last_update = 0\<rparr>"

definition example_country :: "uuid \<Rightarrow> country" where
  "example_country k =
     \<lparr>id_c = k, owner_id_c = Some k, is_claimed_c = True, resources_c = 1000,
      resource_generation_rate_c = Num 1, is_at_war_c = True, active_wars_c = 1,
      territory_lost_c = Num 0, territory_gained_c = Num 0, wars_won_c = 0, wars_lost_c = 0\<rparr>"

definition example_player :: "uuid \<Rightarrow> int \<Rightarrow> player" where
  "example_player k r = \<lparr>id_p = k, country_id_p = Some k, resources_p = r, wars_declared_p = 1\<rparr>"

definition example_war :: war where
  "example_war =
     \<lparr>id_w = 1, aggressor_country_id = 1, defender_country_id = 2, declared_by = 1,
      declared_at = 0, status_w = WarActive, ended_at_w = None, ended_by = None,
      winner_country_id = None, duration_minutes = 0, total_border_pushes = 0\<rparr>"

definition example_world :: "time \<Rightarrow> world" where
  "example_world now =
     \<lparr>wars = [example_war], border_pushes = [example_push],
      countries = [example_country 1, example_country 2],
      players = [example_player 1 100, example_player 2 100],
      clock = sconst now, journal = [], emitted = []\<rparr>"

text \<open>The sample world without its push, and the same with country 2 left by all its soldiers.\<close>

definition war_world :: world where
  "war_world = (example_world 5000)\<lparr>border_pushes := []\<rparr>"

definition unclaimed_world :: world where
  "unclaimed_world =
     war_world\<lparr>countries := [example_country 1,
        (example_country 2)\<lparr>is_claimed_c := False, owner_id_c := None\<rparr>]\<rparr>"

text \<open>
  Three countries at peace at time 0, and the state after the owner of country 1 has
  declared war on 2 and then on 3 (with no cooldown configured).
\<close>

definition peace_world :: world where
  "peace_world =
     \<lparr>wars = [], border_pushes = [],
      countries = map (\<lambda>k. (example_country k)\<lparr>is_at_war_c := False, active_wars_c := 0\<rparr>) [1, 2, 3],
      players = [example_player 1 100, example_player 2 100, example_player 3 100],
      clock = sconst 0, journal = [], emitted = []\<rparr>"

definition two_wars_world :: world where
  "two_wars_world =
     snd (declare_war 0 2 (example_player 1 100) 3
            (snd (declare_war 0 1 (example_player 1 100) 2 peace_world)))"

text \<open>
  Two requests on the countries at peace, interleaved: the owners of countries 1 and 2
  declare war on each other, and both lookups run before either \<^verbatim>\<open>War.create\<close>.
\<close>

definition raced_world :: world where
  "raced_world =
     (case declare_war_lookup 0 (example_player 1 100) 2 peace_world of
        (Inl answer, w1) \<Rightarrow> w1
      | (Inr (source1, target1), w1) \<Rightarrow>
          (case declare_war_lookup 0 (example_player 2 100) 1 w1 of
             (Inl answer, w2) \<Rightarrow> w2
           | (Inr (source2, target2), w2) \<Rightarrow>
               snd (create_war 2 (example_player 2 100) source2 target2
                      (snd (create_war 1 (example_player 1 100) source1 target1 w2)))))"

text \<open>The sample push with 100 supporting soldiers, at the strength the validator allows.\<close>

definition crowded_push :: borderPush where
  "crowded_push = example_push\<lparr>supporting_soldiers := 100, push_strength := Num 10\<rparr>"

definition crowded_world :: world where
  "crowded_world = (example_world 0)\<lparr>border_pushes := [crowded_push]\<rparr>"

section \<open>Reachable states\<close>

text \<open>
  No later active war of the table is, for the relation \<open>same\<close>, between the same countries
  as an active war of the table.  With \<open>same_pair\<close> the two countries are taken in either
  direction; with \<open>same_ordered\<close> the aggressor and the defender must agree, which is what
  the unique index \<^verbatim>\<open>unique_active_war_between_countries\<close> compares.
\<close>

definition same_ordered :: "uuid \<Rightarrow> uuid \<Rightarrow> war \<Rightarrow> bool" where
  "same_ordered aggressor defender r =
     (aggressor_country_id r = aggressor \<and> defender_country_id r = defender)"

fun no_active_duplicate :: "(uuid \<Rightarrow> uuid \<Rightarrow> war \<Rightarrow> bool) \<Rightarrow> war list \<Rightarrow> bool" where
  "no_active_duplicate same [] = True"
| "no_active_duplicate same (r # rs) =
     ((if status_w r = WarActive
       then find (\<lambda>r'. status_w r' = WarActive
                        \<and> same (aggressor_country_id r) (defender_country_id r) r') rs = None
       else True)
      \<and> no_active_duplicate same rs)"

text \<open>
  A write to the table of wars that creates no war and makes none active: row by row the
  two countries stay, and a war that is active afterwards was active before.
\<close>

definition no_war_created :: "war list \<Rightarrow> war list \<Rightarrow> bool" where
  "no_war_created before after =
     list_all2 (\<lambda>r r'. aggressor_country_id r' = aggressor_country_id r
                        \<and> defender_country_id r' = defender_country_id r
                        \<and> (status_w r' = status_w r \<or> status_w r' \<noteq> WarActive)) before after"

text \<open>
  The states the platform can be in, with the declare-war requests that have passed their
  lookup and await their \<^verbatim>\<open>War.create\<close>.  It starts without wars.  A declare-war request
  runs its lookup as one step and, if the lookup let it through, its creation as a later
  step, so that other steps can come in between.  Ending a war, starting, joining and
  defending a push and the tick are steps.  Whatever else happens (players joining and leaving countries,
  movement, the passing of time, the same handlers cut at their other awaits) creates no
  war and makes none active; the last rule stands for it.
\<close>

type_synonym pending_war = "uuid \<times> player \<times> country \<times> country"

inductive reachable :: "world \<Rightarrow> pending_war list \<Rightarrow> bool" where
  initial: "wars w = [] \<Longrightarrow> reachable w []"
| refused: "reachable w ps \<Longrightarrow> declare_war_lookup cooldown pl target_id w = (Inl answer, w') \<Longrightarrow>
            reachable w' ps"
| looked_up: "reachable w ps \<Longrightarrow> declare_war_lookup cooldown pl target_id w = (Inr (src, tgt), w') \<Longrightarrow>
              reachable w' (ps @ [(new_id, pl, src, tgt)])"
| created: "reachable w ps \<Longrightarrow> (new_id, pl, src, tgt) \<in> set ps \<Longrightarrow>
            reachable (snd (create_war new_id pl src tgt w)) (remove1 (new_id, pl, src, tgt) ps)"
| ended: "reachable w ps \<Longrightarrow> reachable (snd (end_war warId pl w)) ps"
| pushed: "reachable w ps \<Longrightarrow> reachable (snd (border_push cooldown new_id pl target_id w)) ps"
| joined: "reachable w ps \<Longrightarrow> reachable (snd (snd (addSupportingSoldier p w))) ps"
| defended: "reachable w ps \<Longrightarrow> reachable (snd (snd (addDefendingSoldier p w))) ps"
| ticked: "reachable w ps \<Longrightarrow> reachable (conflict_tick w) ps"
| other: "reachable w ps \<Longrightarrow> no_war_created (wars w) (wars w') \<Longrightarrow> reachable w' ps"

definition war_key :: "war \<Rightarrow> uuid \<times> uuid \<times> war_status" where
  "war_key r = (aggressor_country_id r, defender_country_id r, status_w r)"

abbreviation keys :: "world \<Rightarrow> (uuid \<times> uuid \<times> war_status) list" where
  "keys w \<equiv> map war_key (wars w)"

section \<open>Properties\<close>

subsection \<open>Ledger debit\<close>

text \<open>
  C2.  A debit of \<open>amount\<close> against a player or a country fails and leaves the balance as it
  was when the balance is below \<open>amount\<close>; it succeeds and subtracts \<open>amount\<close> when the
  balance is at least \<open>amount\<close>; and a balance that was not negative is not negative after
  the call, whatever the amount.
\<close>

theorem debit_check_then_decrement:
  "(resources_p pl < amount \<longrightarrow> consumeResources_p pl amount = (False, pl))
   \<and> (amount \<le> resources_p pl \<longrightarrow>
        fst (consumeResources_p pl amount)
        \<and> resources_p (snd (consumeResources_p pl amount)) = resources_p pl - amount)
   \<and> (0 \<le> resources_p pl \<longrightarrow> 0 \<le> resources_p (snd (consumeResources_p pl amount)))
   \<and> (resources_c co < amount \<longrightarrow> consumeResources_c co amount = (False, co))
   \<and> (amount \<le> resources_c co \<longrightarrow>
        fst (consumeResources_c co amount)
        \<and> resources_c (snd (consumeResources_c co amount)) = resources_c co - amount)
   \<and> (0 \<le> resources_c co \<longrightarrow> 0 \<le> resources_c (snd (consumeResources_c co amount)))"
  by (simp add: consumeResources_p_def consumeResources_c_def)

theorem debit_check_then_decrement_witness:
  "consumeResources_p \<lparr>id_p = 1, country_id_p = Some 1, resources_p = 5, wars_declared_p = 0\<rparr> 10
     = (False, \<lparr>id_p = 1, country_id_p = Some 1, resources_p = 5, wars_declared_p = 0\<rparr>)
   \<and> resources_p (snd (consumeResources_p
         \<lparr>id_p = 1, country_id_p = Some 1, resources_p = 15, wars_declared_p = 0\<rparr> 10)) = 5
   \<and> fst (consumeResources_p
         \<lparr>id_p = 1, country_id_p = Some 1, resources_p = 15, wars_declared_p = 0\<rparr> 10)"
  using debit_check_then_decrement
          [of "\<lparr>id_p = 1, country_id_p = Some 1, resources_p = 5, wars_declared_p = 0\<rparr>" 10]
        debit_check_then_decrement
          [of "\<lparr>id_p = 1, country_id_p = Some 1, resources_p = 15, wars_declared_p = 0\<rparr>" 10]
  by simp

subsection \<open>Helper facts: clock, journal, hooks\<close>

lemma now_Date_simps [simp]:
  "fst (now_Date w) = shd (clock w)"
  "snd (now_Date w) = w\<lparr>clock := stl (clock w)\<rparr>"
  by (simp_all add: now_Date_def new_Date_def)

lemma logw_simps [simp]:
  "wars (logw e w) = wars w" "border_pushes (logw e w) = border_pushes w"
  "countries (logw e w) = countries w" "players (logw e w) = players w"
  "clock (logw e w) = clock w" "emitted (logw e w) = emitted w"
  "journal (logw e w) = journal w @ [e]"
  by (simp_all add: logw_def)

lemma emit_simps [simp]:
  "wars (emit e w) = wars w" "border_pushes (emit e w) = border_pushes w"
  "countries (emit e w) = countries w" "players (emit e w) = players w"
  "clock (emit e w) = clock w" "journal (emit e w) = journal w"
  "emitted (emit e w) = emitted w @ [e]"
  by (simp_all add: emit_def)

lemma beforeUpdate_b_frame:
  "push_speed (fst (beforeUpdate_b c p w)) = push_speed p"
  "push_strength (fst (beforeUpdate_b c p w)) = push_strength p"
  "resistance_strength (fst (beforeUpdate_b c p w)) = resistance_strength p"
  "terrain_modifier (fst (beforeUpdate_b c p w)) = terrain_modifier p"
  "distance_pushed (fst (beforeUpdate_b c p w)) = distance_pushed p"
  "territory_gained (fst (beforeUpdate_b c p w)) = territory_gained p"
  "supporting_soldiers (fst (beforeUpdate_b c p w)) = supporting_soldiers p"
  "defending_soldiers (fst (beforeUpdate_b c p w)) = defending_soldiers p"
  "resources_consumed (fst (beforeUpdate_b c p w)) = resources_consumed p"
  "status (fst (beforeUpdate_b c p w)) = status p"
  "id_b (fst (beforeUpdate_b c p w)) = id_b p"
  "war_id (fst (beforeUpdate_b c p w)) = war_id p"
  "source_country_id (fst (beforeUpdate_b c p w)) = source_country_id p"
  "target_country_id (fst (beforeUpdate_b c p w)) = target_country_id p"
  by (simp_all add: beforeUpdate_b_def split_def Let_def)

lemma beforeUpdate_b_world:
  "wars (snd (beforeUpdate_b c p w)) = wars w"
  "border_pushes (snd (beforeUpdate_b c p w)) = border_pushes w"
  "countries (snd (beforeUpdate_b c p w)) = countries w"
  "players (snd (beforeUpdate_b c p w)) = players w"
  "emitted (snd (beforeUpdate_b c p w)) = emitted w"
  "journal (snd (beforeUpdate_b c p w)) = journal w"
  by (simp_all add: beforeUpdate_b_def split_def Let_def)

lemma beforeUpdate_b_same_status:
  "\<not> c \<or> status p = Active \<Longrightarrow>
     duration_seconds (fst (beforeUpdate_b c p w)) = duration_seconds p
     \<and> ended_at (fst (beforeUpdate_b c p w)) = ended_at p
     \<and> snd (beforeUpdate_b c p w) = w\<lparr>clock := stl (clock w)\<rparr>"
  by (auto simp: beforeUpdate_b_def split_def Let_def)

lemma beforeUpdate_b_left_active:
  "c \<Longrightarrow> status p \<noteq> Active \<Longrightarrow>
     duration_seconds (fst (beforeUpdate_b c p w)) = (shd (clock w) - started_at p) div 1000
     \<and> ended_at (fst (beforeUpdate_b c p w)) = Some (shd (clock w))
     \<and> snd (beforeUpdate_b c p w) = w\<lparr>clock := stl (stl (clock w))\<rparr>"
  by (simp add: beforeUpdate_b_def split_def Let_def)

lemma afterUpdate_b_world:
  "border_pushes (afterUpdate_b c p w) = border_pushes w"
  "countries (afterUpdate_b c p w) = countries w"
  "players (afterUpdate_b c p w) = players w"
  "emitted (afterUpdate_b c p w) = emitted w"
  "clock (afterUpdate_b c p w) = clock w"
  by (simp_all add: afterUpdate_b_def)

text \<open>What a save leaves of the instance, whether it resolves or rejects.\<close>

lemma save_b_frame:
  "push_speed (fst (save_b prev p w)) = push_speed p"
  "push_strength (fst (save_b prev p w)) = push_strength p"
  "resistance_strength (fst (save_b prev p w)) = resistance_strength p"
  "terrain_modifier (fst (save_b prev p w)) = terrain_modifier p"
  "distance_pushed (fst (save_b prev p w)) = distance_pushed p"
  "territory_gained (fst (save_b prev p w)) = territory_gained p"
  "supporting_soldiers (fst (save_b prev p w)) = supporting_soldiers p"
  "defending_soldiers (fst (save_b prev p w)) = defending_soldiers p"
  "status (fst (save_b prev p w)) = status p"
  "id_b (fst (save_b prev p w)) = id_b p"
  "war_id (fst (save_b prev p w)) = war_id p"
  "source_country_id (fst (save_b prev p w)) = source_country_id p"
  "target_country_id (fst (save_b prev p w)) = target_country_id p"
  by (simp_all add: save_b_def split_def Let_def beforeUpdate_b_frame)

lemma save_b_world:
  "countries (snd (snd (save_b prev p w))) = countries w"
  "players (snd (snd (save_b prev p w))) = players w"
  "emitted (snd (snd (save_b prev p w))) = emitted w"
  by (simp_all add: save_b_def split_def Let_def afterUpdate_b_world beforeUpdate_b_world)

lemma save_b_rows:
  "border_pushes (snd (snd (save_b prev p w)))
     = (if fst (snd (save_b prev p w)) = None
        then map (\<lambda>r. if id_b r = id_b p then fst (save_b prev p w) else r) (border_pushes w)
        else border_pushes w)"
  by (simp add: save_b_def split_def Let_def afterUpdate_b_world beforeUpdate_b_world
        beforeUpdate_b_frame)

lemma save_b_rejected_journal:
  "fst (snd (save_b prev p w)) \<noteq> None \<Longrightarrow> journal (snd (snd (save_b prev p w))) = journal w"
  by (simp add: save_b_def split_def Let_def beforeUpdate_b_world split: if_splits)

lemma save_b_settles:
  "fst (snd (save_b prev p w)) = None
     \<longleftrightarrow> validate_b prev p \<and> validate_b p (fst (beforeUpdate_b (status p \<noteq> status prev) p w))"
  by (simp add: save_b_def split_def Let_def)

lemma validate_b_hook:
  "validate_b p (fst (beforeUpdate_b c p w))
     \<longleftrightarrow> (duration_seconds (fst (beforeUpdate_b c p w)) = duration_seconds p
          \<or> 0 \<le> duration_seconds (fst (beforeUpdate_b c p w)))"
  by (simp add: validate_b_def beforeUpdate_b_frame)

lemma save_b_same_status:
  "status p = status prev \<Longrightarrow> fst (snd (save_b prev p w)) = None \<longleftrightarrow> validate_b prev p"
  using beforeUpdate_b_same_status[of "status p \<noteq> status prev" p w]
  by (simp add: save_b_settles validate_b_hook)

lemmas example_defs = example_world_def example_push_def example_war_def example_country_def
  example_player_def

lemmas model_defs = conflict_tick_def findActivePushes_def tick_push_def calculateCurrentProgress_def
  stopPush_def updateProgress_def save_b_def beforeUpdate_b_def afterUpdate_b_def
  now_Date_def new_Date_def logw_def emit_def of_integer_def js_gt_def Math_PI_def
  validate_b_def validator_min_def validator_max_def

subsection \<open>Speed\<close>

text \<open>The validators give what the properties below ask of a push.\<close>

lemma valid_push_numbers:
  "valid_push p \<Longrightarrow>
     finite_num (push_strength p) \<and> positive (resistance_strength p) \<and> positive (terrain_modifier p)
     \<and> 0 \<le> supporting_soldiers p \<and> 0 \<le> defending_soldiers p
     \<and> at_least 0 (push_speed p) \<and> at_least 0 (distance_pushed p)"
  by (auto simp: valid_push_def between_def at_least_def finite_num_def positive_def
      split: jsnum.splits)

lemma clamp_max_min: "Math_max (Num (1/10)) (Math_min (Num 5) v) = spec_clamp v (Num (1/10)) (Num 5)"
  by (cases v) (auto simp: Math_max_def Math_min_def spec_clamp_def)

lemma clamp_between: "v \<noteq> NaN \<Longrightarrow> between (1/10) 5 (Math_max (Num (1/10)) (Math_min (Num 5) v))"
  by (cases v) (auto simp: Math_max_def Math_min_def between_def)

lemma speed_not_NaN:
  "finite_num s \<Longrightarrow> positive r \<Longrightarrow> positive t \<Longrightarrow>
   js_mul (js_mul (Num 1) (js_div s r)) (js_div (Num 1) t) \<noteq> NaN"
  by (cases s; cases r; cases t) (auto simp: finite_num_def positive_def)

lemma sqrt_positive: "0 \<le> n \<Longrightarrow> positive (js_mul (Num 1) (Math_sqrt (of_integer (n + 1))))"
  by (simp add: positive_def of_integer_def)

lemma sqrt_finite: "0 \<le> n \<Longrightarrow> finite_num (js_mul (Num 1) (Math_sqrt (of_integer (n + 1))))"
  by (simp add: finite_num_def of_integer_def)


text \<open>
  C5.  The speed of a push lies in [0.1, 5.0] once the \<^verbatim>\<open>beforeCreate\<close> hook has run, and
  after every \<^verbatim>\<open>addSupportingSoldier\<close> and \<^verbatim>\<open>addDefendingSoldier\<close>, however large the
  soldier counts and the terrain modifier are: for every push whose terrain modifier is a
  positive number, whose resistance is a positive number, whose strength is a finite number
  and whose soldier counts are not negative (the validators of the columns ask for more).
\<close>

theorem push_speed_bounded:
  assumes "finite_num (push_strength p)" and "positive (resistance_strength p)"
    and "positive (terrain_modifier p)"
    and "0 \<le> supporting_soldiers p" and "0 \<le> defending_soldiers p"
  shows "between (1/10) 5 (push_speed (beforeCreate_b p))
       \<and> between (1/10) 5 (push_speed (fst (addSupportingSoldier p w)))
       \<and> between (1/10) 5 (push_speed (fst (addDefendingSoldier p w)))"
proof (intro conjI)
  show "between (1/10) 5 (push_speed (beforeCreate_b p))"
    using assms(1-3) by (simp add: beforeCreate_b_def Let_def clamp_between speed_not_NaN)
  show "between (1/10) 5 (push_speed (fst (addSupportingSoldier p w)))"
    using assms(2-4) sqrt_finite[of "supporting_soldiers p"]
    by (simp add: addSupportingSoldier_def Let_def save_b_frame clamp_between speed_not_NaN)
  show "between (1/10) 5 (push_speed (fst (addDefendingSoldier p w)))"
    using assms(1,3,5) sqrt_positive[of "defending_soldiers p"]
    by (simp add: addDefendingSoldier_def Let_def save_b_frame clamp_between speed_not_NaN)
qed

theorem push_speed_bounded_witness:
  "finite_num (push_strength (example_push\<lparr>supporting_soldiers := 1000000,
       defending_soldiers := 250000, terrain_modifier := Num 4000\<rparr>))
   \<and> positive (resistance_strength (example_push\<lparr>supporting_soldiers := 1000000,
       defending_soldiers := 250000, terrain_modifier := Num 4000\<rparr>))
   \<and> positive (terrain_modifier (example_push\<lparr>supporting_soldiers := 1000000,
       defending_soldiers := 250000, terrain_modifier := Num 4000\<rparr>))
   \<and> between (1/10) 5 (push_speed (beforeCreate_b (example_push\<lparr>supporting_soldiers := 1000000,
       defending_soldiers := 250000, terrain_modifier := Num 4000\<rparr>)))
   \<and> between (1/10) 5 (push_speed (fst (addSupportingSoldier (example_push\<lparr>supporting_soldiers := 1000000,
       defending_soldiers := 250000, terrain_modifier := Num 4000\<rparr>) (example_world 0))))
   \<and> between (1/10) 5 (push_speed (fst (addDefendingSoldier (example_push\<lparr>supporting_soldiers := 1000000,
       defending_soldiers := 250000, terrain_modifier := Num 4000\<rparr>) (example_world 0))))"
  using push_speed_bounded [of "example_push\<lparr>supporting_soldiers := 1000000,
       defending_soldiers := 250000, terrain_modifier := Num 4000\<rparr>" "example_world 0"]
  by (simp add: example_push_def finite_num_def positive_def)


subsection \<open>Join and defend\<close>

lemma clamp_passes:
  "validator_min (1/10) (Math_max (Num (1/10)) (Math_min (Num 5) v))
   \<and> validator_max 5 (Math_max (Num (1/10)) (Math_min (Num 5) v))"
  by (cases v) (auto simp: Math_max_def Math_min_def validator_min_def validator_max_def)

lemma valid_push_strengths:
  "valid_push p \<Longrightarrow>
     (\<exists>s. push_strength p = Num s \<and> 1/10 \<le> s \<and> s \<le> 10)
     \<and> (\<exists>r. resistance_strength p = Num r \<and> 1/10 \<le> r \<and> r \<le> 10)
     \<and> 1 \<le> supporting_soldiers p \<and> 0 \<le> defending_soldiers p"
  by (auto simp: valid_push_def between_def split: jsnum.splits)

lemma sqrt_int_bounds:
  "0 \<le> n \<Longrightarrow> 1/10 \<le> sqrt (real_of_int (n + 1))"
  "0 \<le> n \<Longrightarrow> n < 100 \<Longrightarrow> sqrt (real_of_int (n + 1)) \<le> 10"
  "100 \<le> n \<Longrightarrow> 10 < sqrt (real_of_int (n + 1))"
proof -
  assume n: "0 \<le> n"
  then have "1 \<le> sqrt (real_of_int (n + 1))" by simp
  then show "1/10 \<le> sqrt (real_of_int (n + 1))" by linarith
next
  assume "0 \<le> n" "n < 100"
  then have "real_of_int (n + 1) \<le> 100" by simp
  then have "sqrt (real_of_int (n + 1)) \<le> sqrt 100" by (simp only: real_sqrt_le_iff)
  moreover have "sqrt 100 = (10::real)" using real_sqrt_abs2[of 10] by simp
  ultimately show "sqrt (real_of_int (n + 1)) \<le> 10" by linarith
next
  assume "100 \<le> n"
  then have "100 < real_of_int (n + 1)" by simp
  then have "sqrt 100 < sqrt (real_of_int (n + 1))" by (simp only: real_sqrt_less_iff)
  moreover have "sqrt 100 = (10::real)" using real_sqrt_abs2[of 10] by simp
  ultimately show "10 < sqrt (real_of_int (n + 1))" by linarith
qed


lemma join_validates:
  assumes "valid_push p"
  shows "validate_b p (p\<lparr>supporting_soldiers := supporting_soldiers p + 1,
                          push_strength := Num (sqrt (real_of_int (supporting_soldiers p + 1))),
                          push_speed := Math_max (Num (1/10)) (Math_min (Num 5) v)\<rparr>)
         \<longleftrightarrow> supporting_soldiers p < 100"
proof -
  from valid_push_strengths[OF assms]
  obtain s where s: "push_strength p = Num s" "s \<le> 10" "1 \<le> supporting_soldiers p" by blast
  have n: "0 \<le> supporting_soldiers p" using s(3) by simp
  show ?thesis
  proof (cases "supporting_soldiers p < 100")
    case True
    then show ?thesis
      using sqrt_int_bounds(1,2)[OF n] s(3) clamp_passes[of v]
      by (simp add: validate_b_def validator_min_def validator_max_def)
  next
    case False
    then have "10 < sqrt (real_of_int (supporting_soldiers p + 1))"
      using sqrt_int_bounds(3)[of "supporting_soldiers p"] by simp
    then show ?thesis
      using False s(1,2) by (simp add: validate_b_def validator_min_def validator_max_def)
  qed
qed

lemma defend_validates:
  assumes "valid_push p"
  shows "validate_b p (p\<lparr>defending_soldiers := defending_soldiers p + 1,
                          resistance_strength := Num (sqrt (real_of_int (defending_soldiers p + 1))),
                          push_speed := Math_max (Num (1/10)) (Math_min (Num 5) v)\<rparr>)
         \<longleftrightarrow> defending_soldiers p < 100"
proof -
  from valid_push_strengths[OF assms]
  obtain r where r: "resistance_strength p = Num r" "r \<le> 10" "0 \<le> defending_soldiers p" by blast
  show ?thesis
  proof (cases "defending_soldiers p < 100")
    case True
    then show ?thesis
      using sqrt_int_bounds(1,2)[OF r(3)] r(3) clamp_passes[of v]
      by (simp add: validate_b_def validator_min_def validator_max_def)
  next
    case False
    then have "10 < sqrt (real_of_int (defending_soldiers p + 1))"
      using sqrt_int_bounds(3)[of "defending_soldiers p"] by simp
    then show ?thesis
      using False r(1,2) by (simp add: validate_b_def validator_min_def validator_max_def)
  qed
qed

lemma join_as_save:
  "0 \<le> supporting_soldiers p \<Longrightarrow>
   addSupportingSoldier p w =
     save_b p (p\<lparr>supporting_soldiers := supporting_soldiers p + 1,
                 push_strength := Num (sqrt (real_of_int (supporting_soldiers p + 1))),
                 push_speed := Math_max (Num (1/10))
                   (Math_min (Num 5)
                      (js_mul (js_mul (Num 1)
                                 (js_div (Num (sqrt (real_of_int (supporting_soldiers p + 1))))
                                         (resistance_strength p)))
                              (js_div (Num 1) (terrain_modifier p))))\<rparr>) w"
  by (simp add: addSupportingSoldier_def Let_def of_integer_def)

lemma defend_as_save:
  "0 \<le> defending_soldiers p \<Longrightarrow>
   addDefendingSoldier p w =
     save_b p (p\<lparr>defending_soldiers := defending_soldiers p + 1,
                 resistance_strength := Num (sqrt (real_of_int (defending_soldiers p + 1))),
                 push_speed := Math_max (Num (1/10))
                   (Math_min (Num 5)
                      (js_mul (js_mul (Num 1)
                                 (js_div (push_strength p)
                                         (Num (sqrt (real_of_int (defending_soldiers p + 1))))))
                              (js_div (Num 1) (terrain_modifier p))))\<rparr>) w"
  by (simp add: addDefendingSoldier_def Let_def of_integer_def)

lemma save_b_rejects:
  "\<not> validate_b prev p \<Longrightarrow> save_b prev p w = (p, Some ValidationError, w)"
  by (simp add: save_b_def)

lemma join_settles:
  assumes "valid_push p"
  shows "(supporting_soldiers p < 100 \<longrightarrow>
            fst (snd (addSupportingSoldier p w)) = None
            \<and> border_pushes (snd (snd (addSupportingSoldier p w)))
                = map (\<lambda>r. if id_b r = id_b p then fst (addSupportingSoldier p w) else r) (border_pushes w))
       \<and> (100 \<le> supporting_soldiers p \<longrightarrow>
            snd (addSupportingSoldier p w) = (Some ValidationError, w))"
proof -
  let ?q = "p\<lparr>supporting_soldiers := supporting_soldiers p + 1,
               push_strength := Num (sqrt (real_of_int (supporting_soldiers p + 1))),
               push_speed := Math_max (Num (1/10))
                   (Math_min (Num 5)
                      (js_mul (js_mul (Num 1) (js_div (Num (sqrt (real_of_int (supporting_soldiers p + 1)))) (resistance_strength p)))
                              (js_div (Num 1) (terrain_modifier p))))\<rparr>"
  have n: "0 \<le> supporting_soldiers p" using valid_push_strengths[OF assms] by simp
  have e: "addSupportingSoldier p w = save_b p ?q w" by (rule join_as_save[OF n])
  have v: "validate_b p ?q \<longleftrightarrow> supporting_soldiers p < 100" by (rule join_validates[OF assms])
  show ?thesis
  proof (intro conjI impI)
    assume "supporting_soldiers p < 100"
    then have "validate_b p ?q" using v by blast
    then have r: "fst (snd (save_b p ?q w)) = None"
      using save_b_same_status[of ?q p w] by simp
    then show "fst (snd (addSupportingSoldier p w)) = None" by (simp only: e)
    show "border_pushes (snd (snd (addSupportingSoldier p w)))
                = map (\<lambda>r. if id_b r = id_b p then fst (addSupportingSoldier p w) else r) (border_pushes w)"
      using r save_b_rows[of p ?q w] unfolding e by simp
  next
    assume "100 \<le> supporting_soldiers p"
    then have "\<not> validate_b p ?q" using v by simp
    then have "save_b p ?q w = (?q, Some ValidationError, w)" by (rule save_b_rejects)
    then show "snd (addSupportingSoldier p w) = (Some ValidationError, w)" by (simp only: e snd_conv)
  qed
qed

lemma defend_settles:
  assumes "valid_push p"
  shows "(defending_soldiers p < 100 \<longrightarrow>
            fst (snd (addDefendingSoldier p w)) = None
            \<and> border_pushes (snd (snd (addDefendingSoldier p w)))
                = map (\<lambda>r. if id_b r = id_b p then fst (addDefendingSoldier p w) else r) (border_pushes w))
       \<and> (100 \<le> defending_soldiers p \<longrightarrow>
            snd (addDefendingSoldier p w) = (Some ValidationError, w))"
proof -
  let ?q = "p\<lparr>defending_soldiers := defending_soldiers p + 1,
               resistance_strength := Num (sqrt (real_of_int (defending_soldiers p + 1))),
               push_speed := Math_max (Num (1/10))
                   (Math_min (Num 5)
                      (js_mul (js_mul (Num 1) (js_div (push_strength p) (Num (sqrt (real_of_int (defending_soldiers p + 1))))))
                              (js_div (Num 1) (terrain_modifier p))))\<rparr>"
  have n: "0 \<le> defending_soldiers p" using valid_push_strengths[OF assms] by simp
  have e: "addDefendingSoldier p w = save_b p ?q w" by (rule defend_as_save[OF n])
  have v: "validate_b p ?q \<longleftrightarrow> defending_soldiers p < 100" by (rule defend_validates[OF assms])
  show ?thesis
  proof (intro conjI impI)
    assume "defending_soldiers p < 100"
    then have "validate_b p ?q" using v by blast
    then have r: "fst (snd (save_b p ?q w)) = None"
      using save_b_same_status[of ?q p w] by simp
    then show "fst (snd (addDefendingSoldier p w)) = None" by (simp only: e)
    show "border_pushes (snd (snd (addDefendingSoldier p w)))
                = map (\<lambda>r. if id_b r = id_b p then fst (addDefendingSoldier p w) else r) (border_pushes w)"
      using r save_b_rows[of p ?q w] unfolding e by simp
  next
    assume "100 \<le> defending_soldiers p"
    then have "\<not> validate_b p ?q" using v by simp
    then have "save_b p ?q w = (?q, Some ValidationError, w)" by (rule save_b_rejects)
    then show "snd (addDefendingSoldier p w) = (Some ValidationError, w)" by (simp only: e snd_conv)
  qed
qed


text \<open>
  C7, as the code has it.  \<^verbatim>\<open>addSupportingSoldier\<close> adds one to \<open>supporting_soldiers\<close> and
  then sets \<open>push_strength = 1.0 * sqrt(supporting_soldiers)\<close>; \<^verbatim>\<open>addDefendingSoldier\<close> adds
  one to \<open>defending_soldiers\<close> and then sets
  \<open>resistance_strength = 1.0 * sqrt(defending_soldiers)\<close>; both leave the other strength and the
  terrain modifier as they were and set \<open>push_speed\<close> to the specification's formula on the
  new values.  This is what the instance holds after the call, for every push, so for the
  active ones the routes call them on.  Whether the row takes these values is decided by
  the validators of the strengths, which allow at most 10.0: on a push whose columns pass
  their validators, with fewer than 100 supporting (defending) soldiers the save resolves
  and the row of the push is the instance; with 100 or more the new strength is over 10.0,
  the save rejects with a validation error, and the store is as before.
\<close>

theorem join_defend_formula:
  "supporting_soldiers (fst (addSupportingSoldier p w)) = supporting_soldiers p + 1
   \<and> push_strength (fst (addSupportingSoldier p w))
       = js_mul (Num 1) (Math_sqrt (of_integer (supporting_soldiers (fst (addSupportingSoldier p w)))))
   \<and> resistance_strength (fst (addSupportingSoldier p w)) = resistance_strength p
   \<and> terrain_modifier (fst (addSupportingSoldier p w)) = terrain_modifier p
   \<and> push_speed (fst (addSupportingSoldier p w)) = spec_push_speed (fst (addSupportingSoldier p w))
   \<and> defending_soldiers (fst (addDefendingSoldier p w)) = defending_soldiers p + 1
   \<and> resistance_strength (fst (addDefendingSoldier p w))
       = js_mul (Num 1) (Math_sqrt (of_integer (defending_soldiers (fst (addDefendingSoldier p w)))))
   \<and> push_strength (fst (addDefendingSoldier p w)) = push_strength p
   \<and> terrain_modifier (fst (addDefendingSoldier p w)) = terrain_modifier p
   \<and> push_speed (fst (addDefendingSoldier p w)) = spec_push_speed (fst (addDefendingSoldier p w))
   \<and> (valid_push p \<and> supporting_soldiers p < 100 \<longrightarrow>
        fst (snd (addSupportingSoldier p w)) = None
        \<and> border_pushes (snd (snd (addSupportingSoldier p w)))
            = map (\<lambda>r. if id_b r = id_b p then fst (addSupportingSoldier p w) else r) (border_pushes w))
   \<and> (valid_push p \<and> 100 \<le> supporting_soldiers p \<longrightarrow>
        snd (addSupportingSoldier p w) = (Some ValidationError, w))
   \<and> (valid_push p \<and> defending_soldiers p < 100 \<longrightarrow>
        fst (snd (addDefendingSoldier p w)) = None
        \<and> border_pushes (snd (snd (addDefendingSoldier p w)))
            = map (\<lambda>r. if id_b r = id_b p then fst (addDefendingSoldier p w) else r) (border_pushes w))
   \<and> (valid_push p \<and> 100 \<le> defending_soldiers p \<longrightarrow>
        snd (addDefendingSoldier p w) = (Some ValidationError, w))"
proof -
  have "supporting_soldiers (fst (addSupportingSoldier p w)) = supporting_soldiers p + 1
   \<and> push_strength (fst (addSupportingSoldier p w))
       = js_mul (Num 1) (Math_sqrt (of_integer (supporting_soldiers (fst (addSupportingSoldier p w)))))
   \<and> resistance_strength (fst (addSupportingSoldier p w)) = resistance_strength p
   \<and> terrain_modifier (fst (addSupportingSoldier p w)) = terrain_modifier p
   \<and> push_speed (fst (addSupportingSoldier p w)) = spec_push_speed (fst (addSupportingSoldier p w))
   \<and> defending_soldiers (fst (addDefendingSoldier p w)) = defending_soldiers p + 1
   \<and> resistance_strength (fst (addDefendingSoldier p w))
       = js_mul (Num 1) (Math_sqrt (of_integer (defending_soldiers (fst (addDefendingSoldier p w)))))
   \<and> push_strength (fst (addDefendingSoldier p w)) = push_strength p
   \<and> terrain_modifier (fst (addDefendingSoldier p w)) = terrain_modifier p
   \<and> push_speed (fst (addDefendingSoldier p w)) = spec_push_speed (fst (addDefendingSoldier p w))"
    by (simp add: addSupportingSoldier_def addDefendingSoldier_def Let_def save_b_frame
        spec_push_speed_def clamp_max_min)
  then show ?thesis
    using join_settles[of p w] defend_settles[of p w] by blast
qed

theorem join_defend_formula_witness:
  "valid_push (example_push\<lparr>supporting_soldiers := 3\<rparr>)
   \<and> fst (snd (addSupportingSoldier (example_push\<lparr>supporting_soldiers := 3\<rparr>)
                 ((example_world 0)\<lparr>border_pushes := [example_push\<lparr>supporting_soldiers := 3\<rparr>]\<rparr>))) = None
   \<and> map (\<lambda>r. (supporting_soldiers r, push_strength r, push_speed r))
         (border_pushes (snd (snd (addSupportingSoldier (example_push\<lparr>supporting_soldiers := 3\<rparr>)
                 ((example_world 0)\<lparr>border_pushes := [example_push\<lparr>supporting_soldiers := 3\<rparr>]\<rparr>)))))
       = [(4, Num 2, Num 2)]
   \<and> valid_push (example_push\<lparr>defending_soldiers := 3\<rparr>)
   \<and> fst (snd (addDefendingSoldier (example_push\<lparr>defending_soldiers := 3\<rparr>)
                 ((example_world 0)\<lparr>border_pushes := [example_push\<lparr>defending_soldiers := 3\<rparr>]\<rparr>))) = None
   \<and> map (\<lambda>r. (defending_soldiers r, resistance_strength r, push_speed r))
         (border_pushes (snd (snd (addDefendingSoldier (example_push\<lparr>defending_soldiers := 3\<rparr>)
                 ((example_world 0)\<lparr>border_pushes := [example_push\<lparr>defending_soldiers := 3\<rparr>]\<rparr>)))))
       = [(4, Num 2, Num (1/2))]
   \<and> valid_push (example_push\<lparr>supporting_soldiers := 250, push_strength := Num 10\<rparr>)
   \<and> snd (addSupportingSoldier (example_push\<lparr>supporting_soldiers := 250, push_strength := Num 10\<rparr>)
            (example_world 0)) = (Some ValidationError, example_world 0)
   \<and> valid_push (example_push\<lparr>defending_soldiers := 100, resistance_strength := Num 10\<rparr>)
   \<and> snd (addDefendingSoldier (example_push\<lparr>defending_soldiers := 100, resistance_strength := Num 10\<rparr>)
            (example_world 0)) = (Some ValidationError, example_world 0)"
  using join_defend_formula [of "example_push\<lparr>supporting_soldiers := 3\<rparr>"
          "(example_world 0)\<lparr>border_pushes := [example_push\<lparr>supporting_soldiers := 3\<rparr>]\<rparr>"]
    join_defend_formula [of "example_push\<lparr>defending_soldiers := 3\<rparr>"
          "(example_world 0)\<lparr>border_pushes := [example_push\<lparr>defending_soldiers := 3\<rparr>]\<rparr>"]
    join_defend_formula [of "example_push\<lparr>supporting_soldiers := 250, push_strength := Num 10\<rparr>"
          "example_world 0"]
    join_defend_formula [of "example_push\<lparr>defending_soldiers := 100, resistance_strength := Num 10\<rparr>"
          "example_world 0"]
  by (simp add: example_defs valid_push_def between_def at_least_def spec_push_speed_def
        spec_clamp_def of_integer_def)

text \<open>
  C7, the sentence of the specification, fails on a push with 100 supporting soldiers: the
  join would set the strength to \<open>sqrt 101\<close>, the validator rejects it, and the row of the
  push still has 100 supporting soldiers.
\<close>

theorem join_rejected_at_hundred_supporters:
  "valid_push crowded_push \<and> status crowded_push = Active
   \<and> border_pushes crowded_world = [crowded_push]
   \<and> fst (snd (addSupportingSoldier crowded_push crowded_world)) = Some ValidationError
   \<and> map supporting_soldiers (border_pushes (snd (snd (addSupportingSoldier crowded_push crowded_world))))
       = [100]"
proof -
  have v: "valid_push crowded_push"
    by (simp add: crowded_push_def example_defs valid_push_def between_def at_least_def)
  have "snd (addSupportingSoldier crowded_push crowded_world) = (Some ValidationError, crowded_world)"
    using join_settles[OF v, of crowded_world] by (simp add: crowded_push_def)
  then show ?thesis
    using v by (simp add: crowded_world_def crowded_push_def example_defs)
qed

subsection \<open>Progress\<close>

lemma calc_active:
  "status p = Active \<Longrightarrow>
   calculateCurrentProgress p w =
     ((\<lparr>distance = spec_candidate_distance p (shd (clock w)),
        territory = territory_gained p, isActive = True\<rparr>, p), w\<lparr>clock := stl (clock w)\<rparr>)"
  by (simp add: calculateCurrentProgress_def split_def Let_def spec_candidate_distance_def)

lemma calc_inactive:
  "status p \<noteq> Active \<Longrightarrow>
   calculateCurrentProgress p w =
     ((\<lparr>distance = distance_pushed p, territory = territory_gained p, isActive = False\<rparr>, p), w)"
  by (simp add: calculateCurrentProgress_def)

lemma elapsed_nonneg:
  assumes "at_least 0 v" and "at_least 0 d" and "l \<le> t"
  shows "js_ge (js_add d (js_mul v (js_div (of_integer (t - l)) (Num 1000)))) d"
proof -
  from assms(1) obtain x where v: "v = Num x" "0 \<le> x"
    by (cases v) (auto simp: at_least_def)
  from assms(2) obtain y where d: "d = Num y"
    by (cases d) (auto simp: at_least_def)
  have "0 \<le> x * ((real_of_int t - real_of_int l) / 1000)"
    using v(2) assms(3) by (intro mult_nonneg_nonneg) simp_all
  then show ?thesis
    using v d by (simp add: of_integer_def js_ge_def)
qed

lemma updateProgress_active:
  "status p = Active \<Longrightarrow>
   updateProgress p w =
     save_b p (p\<lparr>distance_pushed := spec_candidate_distance p (shd (clock w)),
                 last_update := shd (stl (clock w)),
                 territory_gained :=
                   js_mul (js_mul Math_PI (js_div (spec_candidate_distance p (shd (clock w))) (Num 1000)))
                          (js_div (spec_candidate_distance p (shd (clock w))) (Num 1000))\<rparr>)
              (w\<lparr>clock := stl (stl (clock w))\<rparr>)"
  by (simp add: updateProgress_def calc_active Let_def split_def)

lemma updateProgress_committed:
  "status p = Active \<Longrightarrow>
   distance_pushed (fst (updateProgress p w)) = spec_candidate_distance p (shd (clock w))
   \<and> territory_gained (fst (updateProgress p w))
       = js_mul (js_mul Math_PI (js_div (spec_candidate_distance p (shd (clock w))) (Num 1000)))
                (js_div (spec_candidate_distance p (shd (clock w))) (Num 1000))"
  by (simp add: updateProgress_active save_b_frame)


lemma territory_passes: "validator_min 0 (js_mul (js_mul Math_PI r) r)"
proof (cases r)
  case (Num x)
  have "0 \<le> pi * (x * x)" by simp
  then show ?thesis using Num by (simp add: Math_PI_def validator_min_def mult.assoc)
qed (simp_all add: Math_PI_def validator_min_def inf_of_sign_def)

lemma updateProgress_settles:
  assumes "status p = Active"
  shows "fst (snd (updateProgress p w)) = None
         \<longleftrightarrow> (spec_candidate_distance p (shd (clock w)) = distance_pushed p
              \<or> validator_min 0 (spec_candidate_distance p (shd (clock w))))"
  using assms territory_passes[of "js_div (spec_candidate_distance p (shd (clock w))) (Num 1000)"]
  by (simp add: updateProgress_active save_b_same_status validate_b_def)

lemma updateProgress_rows:
  "status p = Active \<Longrightarrow>
   border_pushes (snd (snd (updateProgress p w)))
     = (if fst (snd (updateProgress p w)) = None
        then map (\<lambda>r. if id_b r = id_b p then fst (updateProgress p w) else r) (border_pushes w)
        else border_pushes w)"
  by (simp add: updateProgress_active save_b_rows)

lemma updateProgress_clock:
  "status p = Active \<Longrightarrow> fst (snd (updateProgress p w)) = None \<Longrightarrow>
   clock (snd (snd (updateProgress p w))) = stl (stl (stl (clock w)))"
  using beforeUpdate_b_same_status[of False]
  by (simp add: updateProgress_active save_b_def split_def Let_def afterUpdate_b_world
      split: if_splits)

lemma at_least_passes: "at_least 0 v \<Longrightarrow> validator_min 0 v"
  by (cases v) (simp_all add: at_least_def validator_min_def)

lemma candidate_at_least:
  assumes "at_least 0 (push_speed p)" and "at_least 0 (distance_pushed p)" and "last_update p \<le> t"
  shows "at_least 0 (spec_candidate_distance p t)"
proof -
  from assms(1) obtain x where v: "push_speed p = Num x" "0 \<le> x"
    by (cases "push_speed p") (auto simp: at_least_def)
  from assms(2) obtain y where d: "distance_pushed p = Num y" "0 \<le> y"
    by (cases "distance_pushed p") (auto simp: at_least_def)
  have "0 \<le> x * ((real_of_int t - real_of_int (last_update p)) / 1000)"
    using v(2) assms(3) by (intro mult_nonneg_nonneg) simp_all
  then show ?thesis
    using v d by (simp add: spec_candidate_distance_def of_integer_def at_least_def)
qed


text \<open>
  C8.  A commit (\<^verbatim>\<open>updateProgress\<close>) never lowers \<open>distance_pushed\<close>: for a push whose
  speed and distance are numbers that are not negative (their validators) and a clock that
  has not gone back behind \<open>last_update\<close>, the distance after the commit is at least the
  distance before; on an active push it is the candidate distance at the reading.  The
  save of such a commit resolves, and on an active push the row takes the committed values.
\<close>

theorem progress_monotonic:
  assumes "at_least 0 (push_speed p)" and "at_least 0 (distance_pushed p)"
    and "last_update p \<le> shd (clock w)"
  shows "js_ge (distance_pushed (fst (updateProgress p w))) (distance_pushed p)
         \<and> (status p = Active \<longrightarrow>
              distance_pushed (fst (updateProgress p w)) = spec_candidate_distance p (shd (clock w)))
         \<and> fst (snd (updateProgress p w)) = None
         \<and> (status p = Active \<longrightarrow>
              border_pushes (snd (snd (updateProgress p w)))
                = map (\<lambda>r. if id_b r = id_b p then fst (updateProgress p w) else r) (border_pushes w))"
proof (cases "status p = Active")
  case True
  have s: "fst (snd (updateProgress p w)) = None"
    using at_least_passes[OF candidate_at_least[OF assms]] by (simp add: updateProgress_settles[OF True])
  show ?thesis
    using True assms s
      elapsed_nonneg[of "push_speed p" "distance_pushed p" "last_update p" "shd (clock w)"]
    by (simp add: updateProgress_committed updateProgress_rows spec_candidate_distance_def)
next
  case False
  then show ?thesis
    using assms(2) by (cases "distance_pushed p") (auto simp: updateProgress_def js_ge_def at_least_def)
qed

theorem progress_monotonic_witness:
  "at_least 0 (push_speed example_push) \<and> at_least 0 (distance_pushed example_push)
   \<and> last_update example_push \<le> shd (clock (example_world 5000))
   \<and> distance_pushed (fst (updateProgress example_push (example_world 5000))) = Num 10004
   \<and> js_ge (Num 10004) (distance_pushed example_push)
   \<and> map distance_pushed (border_pushes (snd (snd (updateProgress example_push (example_world 5000)))))
       = [Num 10004]"
  using progress_monotonic [of example_push "example_world 5000"]
  by (simp add: example_defs at_least_def spec_candidate_distance_def of_integer_def js_ge_def)

text \<open>
  C9.  The progress query answers an active push with the candidate distance
  \<open>distance_pushed + push_speed * elapsed\<close> and changes nothing: \<^verbatim>\<open>this\<close> is the same
  record after the call (so \<open>distance_pushed\<close>, \<open>last_update\<close>, \<open>territory_gained\<close> and
  \<open>status\<close> are), and the tables and the journal of the store are as before.
\<close>

theorem progress_query_read_only:
  "(status p = Active \<longrightarrow>
      distance (fst (fst (calculateCurrentProgress p w))) = spec_candidate_distance p (shd (clock w)))
   \<and> snd (fst (calculateCurrentProgress p w)) = p
   \<and> wars (snd (calculateCurrentProgress p w)) = wars w
   \<and> border_pushes (snd (calculateCurrentProgress p w)) = border_pushes w
   \<and> countries (snd (calculateCurrentProgress p w)) = countries w
   \<and> players (snd (calculateCurrentProgress p w)) = players w
   \<and> journal (snd (calculateCurrentProgress p w)) = journal w"
  by (cases "status p = Active") (simp_all add: calc_active calc_inactive)

theorem progress_query_read_only_witness:
  "status example_push = Active
   \<and> distance (fst (fst (calculateCurrentProgress example_push (example_world 5000)))) = Num 10004
   \<and> snd (fst (calculateCurrentProgress example_push (example_world 5000))) = example_push
   \<and> border_pushes (snd (calculateCurrentProgress example_push (example_world 5000))) = [example_push]"
  using progress_query_read_only [of example_push "example_world 5000"]
  by (simp add: example_defs spec_candidate_distance_def of_integer_def)


subsection \<open>The conflict tick\<close>

lemma updateProgress_world:
  "countries (snd (snd (updateProgress p w))) = countries w"
  "players (snd (snd (updateProgress p w))) = players w"
  "emitted (snd (snd (updateProgress p w))) = emitted w"
  by (cases "status p = Active", simp add: updateProgress_active save_b_world,
      simp add: updateProgress_def)+

lemma updateProgress_fields:
  "status (fst (updateProgress p w)) = status p"
  "id_b (fst (updateProgress p w)) = id_b p"
  "source_country_id (fst (updateProgress p w)) = source_country_id p"
  "target_country_id (fst (updateProgress p w)) = target_country_id p"
  by (cases "status p = Active", simp add: updateProgress_active save_b_frame,
      simp add: updateProgress_def)+

lemma replace_twice:
  "id_b a = k \<Longrightarrow>
   map (\<lambda>r. if id_b r = k then b else r) (map (\<lambda>r. if id_b r = k then a else r) xs)
     = map (\<lambda>r. if id_b r = k then b else r) xs"
  by (induction xs) auto

lemma stopPush_world:
  "countries (snd (stopPush b p w)) = countries w"
  "players (snd (stopPush b p w)) = players w"
  "emitted (snd (stopPush b p w)) = emitted w"
proof -
  obtain q e w1 where u: "updateProgress p w = (q, e, w1)" by (cases "updateProgress p w") auto
  have w1: "countries w1 = countries w" "players w1 = players w" "emitted w1 = emitted w"
    using updateProgress_world[of p w] u by simp_all
  let ?q3 = "q\<lparr>status := (if b then Successful else Cancelled), ended_at := Some (shd (clock w1))\<rparr>"
  let ?w2 = "w1\<lparr>clock := stl (clock w1)\<rparr>"
  obtain q4 e4 w3 where s: "save_b q ?q3 ?w2 = (q4, e4, w3)" by (cases "save_b q ?q3 ?w2") auto
  have w3: "countries w3 = countries w" "players w3 = players w" "emitted w3 = emitted w"
    using save_b_world[of q ?q3 ?w2] s w1 by simp_all
  show "countries (snd (stopPush b p w)) = countries w"
    using u s w1 w3 by (cases e; cases e4) (simp_all add: stopPush_def split_def Let_def)
  show "players (snd (stopPush b p w)) = players w"
    using u s w1 w3 by (cases e; cases e4) (simp_all add: stopPush_def split_def Let_def)
  show "emitted (snd (stopPush b p w)) = emitted w"
    using u s w1 w3 by (cases e; cases e4) (simp_all add: stopPush_def split_def Let_def)
qed

lemma stopPush_ids:
  assumes "stopPush b p w = (Inr p1, w')"
  shows "id_b p1 = id_b p \<and> source_country_id p1 = source_country_id p
         \<and> target_country_id p1 = target_country_id p"
proof -
  obtain q e w1 where u: "updateProgress p w = (q, e, w1)" by (cases "updateProgress p w") auto
  have q: "id_b q = id_b p" "source_country_id q = source_country_id p"
    "target_country_id q = target_country_id p"
    using updateProgress_fields[of p w] u by simp_all
  let ?q3 = "q\<lparr>status := (if b then Successful else Cancelled), ended_at := Some (shd (clock w1))\<rparr>"
  let ?w2 = "w1\<lparr>clock := stl (clock w1)\<rparr>"
  obtain q4 e4 w3 where s: "save_b q ?q3 ?w2 = (q4, e4, w3)" by (cases "save_b q ?q3 ?w2") auto
  have q4: "id_b q4 = id_b p" "source_country_id q4 = source_country_id p"
    "target_country_id q4 = target_country_id p"
    using save_b_frame(10,12,13)[of q ?q3 ?w2] s q by simp_all
  show ?thesis
    using assms u s q4
    by (cases e; cases e4) (auto simp: stopPush_def split_def Let_def split: if_splits)
qed


lemma updateProgress_started:
  "started_at (fst (updateProgress p w)) = started_at p"
  "duration_seconds (fst (updateProgress p w)) = duration_seconds p"
proof -
  have b: "started_at (fst (beforeUpdate_b False q v)) = started_at q" for q v
    by (simp add: beforeUpdate_b_def split_def Let_def)
  show "started_at (fst (updateProgress p w)) = started_at p"
    using b by (simp add: updateProgress_def calculateCurrentProgress_def save_b_def split_def Let_def)
  show "duration_seconds (fst (updateProgress p w)) = duration_seconds p"
    using beforeUpdate_b_same_status[of False]
    by (simp add: updateProgress_def calculateCurrentProgress_def save_b_def split_def Let_def)
qed

lemma save_b_error: "fst (snd (save_b prev p w)) = Some e \<Longrightarrow> e = ValidationError"
  by (simp add: save_b_def split_def Let_def split: if_splits)

lemma updateProgress_error: "fst (snd (updateProgress p w)) = Some e \<Longrightarrow> e = ValidationError"
proof (cases "status p = Active")
  case True
  assume "fst (snd (updateProgress p w)) = Some e"
  then show ?thesis
    unfolding updateProgress_active[OF True] by (rule save_b_error)
next
  case False
  assume "fst (snd (updateProgress p w)) = Some e"
  then show ?thesis using False by (simp add: updateProgress_def)
qed

text \<open>What \<^verbatim>\<open>stopPush('successful')\<close> has done when it resolves.\<close>

lemma stopPush_resolved:
  assumes "status p = Active" and "stopPush True p w = (Inr p1, w')"
  shows "status p1 = Successful
          \<and> distance_pushed p1 = spec_candidate_distance p (shd (clock w))
          \<and> territory_gained p1
              = js_mul (js_mul Math_PI (js_div (distance_pushed p1) (Num 1000)))
                       (js_div (distance_pushed p1) (Num 1000))
          \<and> ended_at p1 \<noteq> None
          \<and> id_b p1 = id_b p \<and> source_country_id p1 = source_country_id p
          \<and> target_country_id p1 = target_country_id p
          \<and> border_pushes w' = map (\<lambda>r. if id_b r = id_b p then p1 else r) (border_pushes w)"
proof -
  obtain q e w1 where u: "updateProgress p w = (q, e, w1)" by (cases "updateProgress p w") auto
  let ?q3 = "q\<lparr>status := Successful, ended_at := Some (shd (clock w1))\<rparr>"
  let ?w2 = "w1\<lparr>clock := stl (clock w1)\<rparr>"
  obtain q4 e4 w3 where s4: "save_b q ?q3 ?w2 = (q4, e4, w3)" by (cases "save_b q ?q3 ?w2") auto
  have e: "e = None" "e4 = None" "p1 = q4" "w' = w3"
    using assms u s4 by (cases e; cases e4; simp add: stopPush_def split_def)+
  have q: "status q = Active" "id_b q = id_b p" "source_country_id q = source_country_id p"
    "target_country_id q = target_country_id p"
    "distance_pushed q = spec_candidate_distance p (shd (clock w))"
    "territory_gained q = js_mul (js_mul Math_PI (js_div (distance_pushed q) (Num 1000)))
                       (js_div (distance_pushed q) (Num 1000))"
    using updateProgress_fields[of p w] updateProgress_committed[OF assms(1), of w] u assms(1)
    by simp_all
  have r: "border_pushes w1 = map (\<lambda>r. if id_b r = id_b p then q else r) (border_pushes w)"
    using updateProgress_rows[OF assms(1), of w] u e by simp
  have q4: "status q4 = Successful" "distance_pushed q4 = distance_pushed q"
    "territory_gained q4 = territory_gained q" "id_b q4 = id_b p"
    "source_country_id q4 = source_country_id p" "target_country_id q4 = target_country_id p"
    using save_b_frame(9,5,6,10,12,13)[of q ?q3 ?w2] s4 q by simp_all
  have q4e: "ended_at q4 \<noteq> None"
    using beforeUpdate_b_left_active[of True ?q3 ?w2] s4 q(1) e(2)
    by (simp add: save_b_def split_def Let_def split: if_splits)
  have r4: "border_pushes w3 = map (\<lambda>r. if id_b r = id_b p then q4 else r) (border_pushes w)"
    using save_b_rows[of q ?q3 ?w2] s4 e(2) r q(2) by (simp add: replace_twice)
  show ?thesis
    using q4 q4e r4 q(5,6) e(3,4) by simp
qed

lemma stopPush_rejected:
  assumes "status p = Active" and "stopPush True p w = (Inl e, w')"
  shows "e = ValidationError"
proof -
  obtain q e1 w1 where u: "updateProgress p w = (q, e1, w1)" by (cases "updateProgress p w") auto
  let ?q3 = "q\<lparr>status := Successful, ended_at := Some (shd (clock w1))\<rparr>"
  let ?w2 = "w1\<lparr>clock := stl (clock w1)\<rparr>"
  obtain q4 e4 w3 where s4: "save_b q ?q3 ?w2 = (q4, e4, w3)" by (cases "save_b q ?q3 ?w2") auto
  show ?thesis
    using assms u s4 updateProgress_error[of p w] save_b_error[of q ?q3 ?w2]
    by (cases e1; cases e4) (simp_all add: stopPush_def split_def)
qed

text \<open>
  When \<^verbatim>\<open>stopPush\<close> resolves: its first save must accept the committed distance, and its
  second the duration the hook computes from its own clock reading, the fifth of the call.
\<close>

lemma stopPush_resolves:
  assumes "status p = Active"
    and "validator_min 0 (spec_candidate_distance p (shd (clock w)))"
    and "started_at p \<le> clock w !! 4"
  shows "\<exists>p1 w'. stopPush True p w = (Inr p1, w')"
proof -
  obtain q e w1 where u: "updateProgress p w = (q, e, w1)" by (cases "updateProgress p w") auto
  have e: "e = None"
    using updateProgress_settles[OF assms(1), of w] assms(2) u by simp
  have q: "status q = Active" "started_at q = started_at p"
    using updateProgress_fields[of p w] updateProgress_started[of p w] u assms(1) by simp_all
  have c: "clock w1 = stl (stl (stl (clock w)))"
    using updateProgress_clock[OF assms(1), of w] u e by simp
  let ?q3 = "q\<lparr>status := Successful, ended_at := Some (shd (clock w1))\<rparr>"
  let ?w2 = "w1\<lparr>clock := stl (clock w1)\<rparr>"
  have v: "validate_b q ?q3" by (simp add: validate_b_def)
  have h: "duration_seconds (fst (beforeUpdate_b True ?q3 ?w2)) = (clock w !! 4 - started_at p) div 1000"
    using beforeUpdate_b_left_active[of True ?q3 ?w2] q(2) c by (simp add: eval_nat_numeral)
  have "0 \<le> (clock w !! 4 - started_at p) div 1000"
    using assms(3) by simp
  then have v2: "validate_b ?q3 (fst (beforeUpdate_b True ?q3 ?w2))"
    using h by (simp add: validate_b_hook)
  have s: "fst (snd (save_b q ?q3 ?w2)) = None"
    using v v2 q(1) by (simp add: save_b_settles)
  obtain q4 w3 where s4: "save_b q ?q3 ?w2 = (q4, None, w3)"
    using s by (cases "save_b q ?q3 ?w2") auto
  have "stopPush True p w = (Inr q4, w3)"
    using assms(1) u e s4 by (simp add: stopPush_def split_def)
  then show ?thesis by blast
qed

lemma tick_push_countries:
  "countries (snd (tick_push push w)) = countries w"
  "players (snd (tick_push push w)) = players w"
proof -
  have c: "countries (snd (calculateCurrentProgress push w)) = countries w"
          "players (snd (calculateCurrentProgress push w)) = players w"
    by (simp_all add: calculateCurrentProgress_def split_def Let_def)
  show "countries (snd (tick_push push w)) = countries w"
    using c(1) by (simp add: tick_push_def split_def Let_def stopPush_world split: sum.splits prod.splits)
  show "players (snd (tick_push push w)) = players w"
    using c(2) by (simp add: tick_push_def split_def Let_def stopPush_world split: sum.splits prod.splits)
qed

lemma tick_pushes_countries:
  "countries (tick_pushes ps w) = countries w \<and> players (tick_pushes ps w) = players w"
proof (induction ps arbitrary: w)
  case Nil
  show ?case by simp
next
  case (Cons push rest)
  obtain r w1 where t: "tick_push push w = (r, w1)" by (cases "tick_push push w")
  have w1: "countries w1 = countries w" "players w1 = players w"
    using tick_push_countries[of push w] t by simp_all
  show ?case
    using t w1 Cons.IH[of w1] by (cases r) simp_all
qed

text \<open>The body of the tick's loop on a push whose candidate distance is over the threshold.\<close>

lemma tick_push_stop:
  assumes "status push = Active"
    and "js_gt (spec_candidate_distance push (shd (clock w))) (Num 10000)"
  shows "tick_push push w =
          (case stopPush True push (w\<lparr>clock := stl (clock w)\<rparr>) of
             (Inl e, w2) \<Rightarrow> (Inl e, w2)
           | (Inr push1, w2) \<Rightarrow>
               (Inr push1,
                emit (Border_push_lost (target_country_id push1) (id_b push1) (territory_gained push))
                  (emit (Border_push_completed (source_country_id push1) (id_b push1)
                           (territory_gained push)) w2)))"
proof -
  obtain r w2 where s: "stopPush True push (w\<lparr>clock := stl (clock w)\<rparr>) = (r, w2)"
    by (cases "stopPush True push (w\<lparr>clock := stl (clock w)\<rparr>)")
  show ?thesis
    using assms s by (cases r) (simp_all add: tick_push_def calc_active)
qed

lemma tick_push_resolved:
  assumes "status push = Active"
    and "js_gt (spec_candidate_distance push (shd (clock w))) (Num 10000)"
    and "fst (tick_push push w) = Inr push1"
  shows "status push1 = Successful
          \<and> distance_pushed push1 = spec_candidate_distance push (shd (stl (clock w)))
          \<and> territory_gained push1
              = js_mul (js_mul Math_PI (js_div (distance_pushed push1) (Num 1000)))
                       (js_div (distance_pushed push1) (Num 1000))
          \<and> ended_at push1 \<noteq> None
          \<and> border_pushes (snd (tick_push push w))
              = map (\<lambda>r. if id_b r = id_b push then push1 else r) (border_pushes w)
          \<and> emitted (snd (tick_push push w))
              = emitted w @ [Border_push_completed (source_country_id push) (id_b push) (territory_gained push),
                             Border_push_lost (target_country_id push) (id_b push) (territory_gained push)]"
proof -
  let ?w1 = "w\<lparr>clock := stl (clock w)\<rparr>"
  obtain r w2 where s: "stopPush True push ?w1 = (r, w2)" by (cases "stopPush True push ?w1")
  have r: "r = Inr push1"
    using assms(3) s by (cases r) (simp_all add: tick_push_stop[OF assms(1,2)])
  have e: "emitted w2 = emitted w"
    using stopPush_world(3)[of True push ?w1] s by simp
  show ?thesis
    using stopPush_resolved[OF assms(1), of ?w1 push1 w2] s r e
    by (simp add: tick_push_stop[OF assms(1,2)])
qed

lemma tick_push_rejected:
  assumes "status push = Active"
    and "js_gt (spec_candidate_distance push (shd (clock w))) (Num 10000)"
    and "fst (tick_push push w) = Inl e"
  shows "e = ValidationError \<and> emitted (snd (tick_push push w)) = emitted w"
proof -
  let ?w1 = "w\<lparr>clock := stl (clock w)\<rparr>"
  obtain r w2 where s: "stopPush True push ?w1 = (r, w2)" by (cases "stopPush True push ?w1")
  have r: "r = Inl e"
    using assms(3) s by (cases r) (simp_all add: tick_push_stop[OF assms(1,2)])
  have e: "emitted w2 = emitted w"
    using stopPush_world(3)[of True push ?w1] s by simp
  show ?thesis
    using stopPush_rejected[OF assms(1), of ?w1 e w2] s r e
    by (simp add: tick_push_stop[OF assms(1,2)])
qed

lemma tick_push_resolves:
  assumes "status push = Active"
    and "js_gt (spec_candidate_distance push (shd (clock w))) (Num 10000)"
    and "validator_min 0 (spec_candidate_distance push (shd (stl (clock w))))"
    and "started_at push \<le> clock w !! 5"
  shows "\<exists>push1. fst (tick_push push w) = Inr push1"
proof -
  let ?w1 = "w\<lparr>clock := stl (clock w)\<rparr>"
  have "started_at push \<le> clock ?w1 !! 4"
    using assms(4) by (simp add: eval_nat_numeral)
  from stopPush_resolves[OF assms(1), of ?w1, OF _ this] assms(3)
  obtain p1 w2 where "stopPush True push ?w1 = (Inr p1, w2)" by auto
  then show ?thesis by (simp add: tick_push_stop[OF assms(1,2)])
qed

lemma tick_push_below:
  assumes "status push = Active"
    and "\<not> js_gt (spec_candidate_distance push (shd (clock w))) (Num 10000)"
  shows "tick_push push w =
          (Inr push,
           emit (Border_push_progress (target_country_id push) (id_b push)
                   \<lparr>distance = spec_candidate_distance push (shd (clock w)),
                    territory = territory_gained push, isActive = True\<rparr> (shd (stl (clock w))))
             (emit (Border_push_progress (source_country_id push) (id_b push)
                   \<lparr>distance = spec_candidate_distance push (shd (clock w)),
                    territory = territory_gained push, isActive = True\<rparr> (shd (stl (clock w))))
                (w\<lparr>clock := stl (stl (clock w))\<rparr>)))"
  using assms
  by (simp add: tick_push_def calc_active split_def Let_def)


text \<open>
  C1, as the code has it.  For an active push the body of the tick's loop reads the
  candidate distance without committing it.  If the candidate exceeds 10000 m, \<^verbatim>\<open>stopPush\<close>
  either rejects with a validation error or commits the progress (the candidate at its own,
  later clock reading, and the territory \<open>\<pi> * (distance_pushed / 1000)\<^sup>2\<close>), makes the push
  \<open>successful\<close> with \<open>ended_at\<close> set, and gives its row these values; it commits when the
  distance it computes passes the column's validator and the push did not start after the
  clock reading of the hook that computes the duration.  Otherwise nothing is committed:
  the push and the table of pushes are as before, nothing is written to the store, and the
  push stays active.  In both cases, and over the whole tick, no country row changes: the
  territory is awarded to no counter.
\<close>

theorem tick_commits_only_on_completion:
  assumes "status push = Active"
  shows "(js_gt (spec_candidate_distance push (shd (clock w))) (Num 10000)
          \<and> validator_min 0 (spec_candidate_distance push (shd (stl (clock w))))
          \<and> started_at push \<le> clock w !! 5 \<longrightarrow>
            (\<exists>push1. fst (tick_push push w) = Inr push1
               \<and> status push1 = Successful \<and> ended_at push1 \<noteq> None
               \<and> distance_pushed push1 = spec_candidate_distance push (shd (stl (clock w)))
               \<and> territory_gained push1
                   = js_mul (js_mul Math_PI (js_div (distance_pushed push1) (Num 1000)))
                            (js_div (distance_pushed push1) (Num 1000))
               \<and> border_pushes (snd (tick_push push w))
                   = map (\<lambda>r. if id_b r = id_b push then push1 else r) (border_pushes w)))
       \<and> (js_gt (spec_candidate_distance push (shd (clock w))) (Num 10000) \<longrightarrow>
            fst (tick_push push w) = Inl ValidationError
            \<or> (\<exists>push1. fst (tick_push push w) = Inr push1
               \<and> status push1 = Successful \<and> ended_at push1 \<noteq> None
               \<and> distance_pushed push1 = spec_candidate_distance push (shd (stl (clock w)))
               \<and> territory_gained push1
                   = js_mul (js_mul Math_PI (js_div (distance_pushed push1) (Num 1000)))
                            (js_div (distance_pushed push1) (Num 1000))
               \<and> border_pushes (snd (tick_push push w))
                   = map (\<lambda>r. if id_b r = id_b push then push1 else r) (border_pushes w)))
       \<and> (\<not> js_gt (spec_candidate_distance push (shd (clock w))) (Num 10000) \<longrightarrow>
            fst (tick_push push w) = Inr push
            \<and> border_pushes (snd (tick_push push w)) = border_pushes w
            \<and> journal (snd (tick_push push w)) = journal w)
       \<and> countries (snd (tick_push push w)) = countries w
       \<and> countries (conflict_tick w) = countries w"
proof (intro conjI impI)
  assume c: "js_gt (spec_candidate_distance push (shd (clock w))) (Num 10000)
          \<and> validator_min 0 (spec_candidate_distance push (shd (stl (clock w))))
          \<and> started_at push \<le> clock w !! 5"
  then obtain push1 where p: "fst (tick_push push w) = Inr push1"
    using tick_push_resolves[OF assms, of w] by blast
  from c tick_push_resolved[OF assms _ p] p
  show "\<exists>push1. fst (tick_push push w) = Inr push1
               \<and> status push1 = Successful \<and> ended_at push1 \<noteq> None
               \<and> distance_pushed push1 = spec_candidate_distance push (shd (stl (clock w)))
               \<and> territory_gained push1
                   = js_mul (js_mul Math_PI (js_div (distance_pushed push1) (Num 1000)))
                            (js_div (distance_pushed push1) (Num 1000))
               \<and> border_pushes (snd (tick_push push w))
                   = map (\<lambda>r. if id_b r = id_b push then push1 else r) (border_pushes w)"
    by blast
next
  assume c: "js_gt (spec_candidate_distance push (shd (clock w))) (Num 10000)"
  show "fst (tick_push push w) = Inl ValidationError
            \<or> (\<exists>push1. fst (tick_push push w) = Inr push1
               \<and> status push1 = Successful \<and> ended_at push1 \<noteq> None
               \<and> distance_pushed push1 = spec_candidate_distance push (shd (stl (clock w)))
               \<and> territory_gained push1
                   = js_mul (js_mul Math_PI (js_div (distance_pushed push1) (Num 1000)))
                            (js_div (distance_pushed push1) (Num 1000))
               \<and> border_pushes (snd (tick_push push w))
                   = map (\<lambda>r. if id_b r = id_b push then push1 else r) (border_pushes w))"
  proof (cases "fst (tick_push push w)")
    case (Inl e)
    then show ?thesis using tick_push_rejected[OF assms c Inl] by simp
  next
    case (Inr push1)
    then show ?thesis using tick_push_resolved[OF assms c Inr] by blast
  qed
next
  assume b: "\<not> js_gt (spec_candidate_distance push (shd (clock w))) (Num 10000)"
  show "fst (tick_push push w) = Inr push"
    by (simp add: tick_push_below[OF assms b])
  show "border_pushes (snd (tick_push push w)) = border_pushes w"
    by (simp add: tick_push_below[OF assms b])
  show "journal (snd (tick_push push w)) = journal w"
    by (simp add: tick_push_below[OF assms b])
next
  show "countries (snd (tick_push push w)) = countries w"
    by (rule tick_push_countries)
  show "countries (conflict_tick w) = countries w"
    by (simp add: conflict_tick_def tick_pushes_countries)
qed

theorem tick_commits_only_on_completion_witness:
  "status example_push = Active
   \<and> \<not> js_gt (spec_candidate_distance example_push (shd (clock (example_world 500)))) (Num 10000)
   \<and> border_pushes (snd (tick_push example_push (example_world 500))) = [example_push]
   \<and> countries (conflict_tick (example_world 500)) = [example_country 1, example_country 2]
   \<and> js_gt (spec_candidate_distance example_push (shd (clock (example_world 5000)))) (Num 10000)
   \<and> validator_min 0 (spec_candidate_distance example_push (shd (stl (clock (example_world 5000)))))
   \<and> started_at example_push \<le> clock (example_world 5000) !! 5
   \<and> map status (border_pushes (snd (tick_push example_push (example_world 5000)))) = [Successful]
   \<and> map distance_pushed (border_pushes (snd (tick_push example_push (example_world 5000))))
       = [Num 10004]"
  using tick_commits_only_on_completion [of example_push "example_world 500"]
    tick_commits_only_on_completion [of example_push "example_world 5000"]
  by (simp add: example_defs model_defs spec_candidate_distance_def split_def Let_def)

text \<open>
  C1, the sentence of the specification, fails on the sample world.  Half a second after
  the last update the candidate distance is 9999.5 m, and after the tick the stored
  distance is still 9999 m: the progress below the threshold was not committed.  Five
  seconds after the last update the push completes with a territory of
  \<open>\<pi> * 10.004\<^sup>2\<close> square kilometres, and the \<open>territory_gained\<close> and \<open>territory_lost\<close>
  counters of both countries are still 0.
\<close>

theorem tick_neither_commits_nor_awards:
  "map distance_pushed (border_pushes (conflict_tick (example_world 500))) = [Num 9999]
   \<and> spec_candidate_distance example_push 500 = Num (19999 / 2)
   \<and> map status (border_pushes (conflict_tick (example_world 5000))) = [Successful]
   \<and> map territory_gained (border_pushes (conflict_tick (example_world 5000)))
       = [Num (pi * (2501 / 250) * (2501 / 250))]
   \<and> map territory_gained_c (countries (conflict_tick (example_world 5000))) = [Num 0, Num 0]
   \<and> map territory_lost_c (countries (conflict_tick (example_world 5000))) = [Num 0, Num 0]"
  by (simp add: example_defs model_defs spec_candidate_distance_def split_def Let_def)

text \<open>
  C10.  The progress query always reports the stored \<open>territory_gained\<close>, and for a push that
  is not active the stored \<open>distance_pushed\<close>, without reading the clock.  So the events of
  the tick carry the territory that was stored when the tick read the push: the
  \<open>completed\<close> and \<open>lost\<close> events (sent after \<^verbatim>\<open>stopPush\<close> has committed a new territory; none
  is sent when \<^verbatim>\<open>stopPush\<close> rejects) and both \<open>progress\<close> events.
\<close>

theorem progress_reports_stored_territory:
  "territory (fst (fst (calculateCurrentProgress p w))) = territory_gained p
   \<and> (status p \<noteq> Active \<longrightarrow>
        distance (fst (fst (calculateCurrentProgress p w))) = distance_pushed p
        \<and> snd (calculateCurrentProgress p w) = w)
   \<and> (status p = Active \<longrightarrow>
        emitted (snd (tick_push p w)) = emitted w @
          (if js_gt (spec_candidate_distance p (shd (clock w))) (Num 10000)
           then (case fst (tick_push p w) of
                   Inl e \<Rightarrow> []
                 | Inr p1 \<Rightarrow>
                     [Border_push_completed (source_country_id p) (id_b p) (territory_gained p),
                      Border_push_lost (target_country_id p) (id_b p) (territory_gained p)])
           else [Border_push_progress (source_country_id p) (id_b p)
                   \<lparr>distance = spec_candidate_distance p (shd (clock w)),
                    territory = territory_gained p, isActive = True\<rparr> (shd (stl (clock w))),
                 Border_push_progress (target_country_id p) (id_b p)
                   \<lparr>distance = spec_candidate_distance p (shd (clock w)),
                    territory = territory_gained p, isActive = True\<rparr> (shd (stl (clock w)))]))"
proof (cases "status p = Active")
  case False
  then show ?thesis by (simp add: calc_inactive)
next
  case True
  show ?thesis
  proof (cases "js_gt (spec_candidate_distance p (shd (clock w))) (Num 10000)")
    case c: True
    show ?thesis
    proof (cases "fst (tick_push p w)")
      case (Inl e)
      then show ?thesis
        using True c tick_push_rejected[OF True c Inl] by (simp add: calc_active)
    next
      case (Inr p1)
      then show ?thesis
        using True c tick_push_resolved[OF True c Inr] by (simp add: calc_active)
    qed
  next
    case b: False
    show ?thesis
      using True b by (simp add: calc_active tick_push_below[OF True b])
  qed
qed

theorem progress_reports_stored_territory_witness:
  "status example_push = Active
   \<and> emitted (snd (tick_push example_push (example_world 5000)))
       = [Border_push_completed 1 7 (Num 0), Border_push_lost 2 7 (Num 0)]
   \<and> status (example_push\<lparr>status := Cancelled\<rparr>) \<noteq> Active
   \<and> distance (fst (fst (calculateCurrentProgress (example_push\<lparr>status := Cancelled\<rparr>)
                          (example_world 5000)))) = Num 9999"
  using progress_reports_stored_territory [of example_push "example_world 5000"]
    progress_reports_stored_territory [of "example_push\<lparr>status := Cancelled\<rparr>" "example_world 5000"]
  by (simp add: example_defs model_defs spec_candidate_distance_def split_def Let_def)

subsection \<open>Ending a war\<close>

lemmas route_defs = end_war_def endWar_def save_w_def beforeUpdate_w_def afterUpdate_w_def
  reset_at_war_def increment_c_def findByPk_w_def findByPk_c_def canEndWar_def
  BorderPush_update_cancelled_def border_push_def create_push_then_consume_def
  BorderPush_create_row_def beforeCreate_b_def consume_and_save_def consumeResources_p_def
  declare_war_def declare_war_lookup_def existingWar_def same_pair_def check_cooldown_def
  create_war_def War_create_row_def afterCreate_w_def increment_wars_declared_def
  Math_max_def Math_min_def validate_w_def

lemma beforeUpdate_w_frame:
  "id_w (fst (beforeUpdate_w c war w)) = id_w war"
  "border_pushes (snd (beforeUpdate_w c war w)) = border_pushes w"
  by (simp_all add: beforeUpdate_w_def split_def Let_def)

lemma reset_at_war_pushes: "border_pushes (reset_at_war k w) = border_pushes w"
  by (simp add: reset_at_war_def split: option.splits)

lemma afterUpdate_w_pushes: "border_pushes (afterUpdate_w c war w) = border_pushes w"
  by (simp add: afterUpdate_w_def Let_def reset_at_war_pushes increment_c_def split: option.splits)

lemma save_w_frame:
  "id_w (fst (save_w prev this w)) = id_w this"
  "border_pushes (snd (snd (save_w prev this w))) = border_pushes w"
  by (simp_all add: save_w_def split_def Let_def beforeUpdate_w_frame afterUpdate_w_pushes)


lemma endWar_frame:
  "fst (endWar who win war w) = Inr war1 \<Longrightarrow> id_w war1 = id_w war"
  "border_pushes (snd (endWar who win war w)) = border_pushes w"
proof -
  obtain t e v where s: "save_w war (war\<lparr>status_w := WarEnded, ended_by := Some who,
        winner_country_id := win, ended_at_w := Some (shd (clock w))\<rparr>) (w\<lparr>clock := stl (clock w)\<rparr>)
      = (t, e, v)"
    by (cases "save_w war (war\<lparr>status_w := WarEnded, ended_by := Some who,
        winner_country_id := win, ended_at_w := Some (shd (clock w))\<rparr>) (w\<lparr>clock := stl (clock w)\<rparr>)")
       auto
  have f: "id_w t = id_w war" "border_pushes v = border_pushes w"
    using save_w_frame[of war "war\<lparr>status_w := WarEnded, ended_by := Some who,
        winner_country_id := win, ended_at_w := Some (shd (clock w))\<rparr>" "w\<lparr>clock := stl (clock w)\<rparr>"] s
    by simp_all
  show "fst (endWar who win war w) = Inr war1 \<Longrightarrow> id_w war1 = id_w war"
    using s f(1) by (cases e) (auto simp: endWar_def split_def Let_def split: if_splits)
  show "border_pushes (snd (endWar who win war w)) = border_pushes w"
    using s f(2) by (cases e) (auto simp: endWar_def split_def Let_def split: if_splits)
qed

lemma find_id_w: "find (\<lambda>r. id_w r = k) ws = Some war \<Longrightarrow> id_w war = k"
  by (induction ws) (auto split: if_splits)

lemma end_war_cancels_active_pushes:
  assumes "fst (end_war warId pl w) = Reply 200 ''War ended successfully''"
  shows "border_pushes (snd (end_war warId pl w))
           = map (\<lambda>r. if war_id r = warId \<and> status r = Active then r\<lparr>status := Cancelled\<rparr> else r)
                 (border_pushes w)"
proof -
  have "findByPk_w warId w \<noteq> None"
    using assms by (cases "findByPk_w warId w") (simp_all add: end_war_def)
  then obtain war where f: "findByPk_w warId w = Some war"
    by blast
  have k: "id_w war = warId"
    using f find_id_w[of warId "wars w" war] by (simp add: findByPk_w_def)
  have g: "status_w war = WarActive"
  proof (rule ccontr)
    assume "status_w war \<noteq> WarActive"
    then have "end_war warId pl w = (Reply 400 ''Bad Request'', w)"
      using f by (simp add: end_war_def)
    with assms show False by simp
  qed
  have c: "canEndWar war (id_p pl)"
  proof (rule ccontr)
    assume "\<not> canEndWar war (id_p pl)"
    then have "end_war warId pl w = (Reply 403 ''Access Denied'', w)"
      using f g by (simp add: end_war_def)
    with assms show False by simp
  qed
  obtain a w1 where e0: "endWar (id_p pl) None war w = (a, w1)"
    by (cases "endWar (id_p pl) None war w")
  have "\<exists>war1. a = Inr war1"
    using assms f g c e0 by (cases a) (simp_all add: end_war_def)
  then obtain war1 where e: "endWar (id_p pl) None war w = (Inr war1, w1)"
    using e0 by blast
  have r: "id_w war1 = id_w war"
    using endWar_frame(1)[of "id_p pl" None war w war1] e by simp
  have p: "border_pushes w1 = border_pushes w"
    using endWar_frame(2)[of "id_p pl" None war w] e by simp
  show ?thesis
    using f g c e r k p by (simp add: end_war_def BorderPush_update_cancelled_def)
qed


lemma end_war_no_active_push_left:
  assumes "fst (end_war warId pl w) = Reply 200 ''War ended successfully''"
    and "r \<in> set (border_pushes (snd (end_war warId pl w)))" and "war_id r = warId"
  shows "status r \<noteq> Active"
proof -
  have "r \<in> (\<lambda>x. if war_id x = warId \<and> status x = Active then x\<lparr>status := Cancelled\<rparr> else x)
              ` set (border_pushes w)"
    using assms(2) by (simp add: end_war_cancels_active_pushes[OF assms(1)])
  then obtain x where x: "r = (if war_id x = warId \<and> status x = Active then x\<lparr>status := Cancelled\<rparr> else x)"
    by blast
  show ?thesis
  proof (cases "war_id x = warId \<and> status x = Active")
    case True
    then show ?thesis using x by simp
  next
    case False
    then have "r = x" using x by simp
    then show ?thesis using False assms(3) by simp
  qed
qed


text \<open>
  C3.  Ending a war cancels its active pushes and leaves every other push as it was
  (\<open>end_war_cancels_active_pushes\<close>, \<open>end_war_no_active_push_left\<close>), but the cascade is
  a bulk update of the \<open>status\<close> column alone: the \<^verbatim>\<open>beforeUpdate\<close> hook that stamps
  \<open>ended_at\<close> does not run.  On the sample world the war ends at time 5000 and its push is
  \<open>cancelled\<close> with \<open>ended_at\<close> still null, where the specification asks for the time
  of the cancellation.
\<close>

theorem end_war_cascade_leaves_ended_at_unset:
  "fst (end_war 1 (example_player 1 100) (example_world 5000)) = Reply 200 ''War ended successfully''
   \<and> map status_w (wars (snd (end_war 1 (example_player 1 100) (example_world 5000)))) = [WarEnded]
   \<and> map ended_at_w (wars (snd (end_war 1 (example_player 1 100) (example_world 5000)))) = [Some 5000]
   \<and> map status (border_pushes (snd (end_war 1 (example_player 1 100) (example_world 5000)))) = [Cancelled]
   \<and> map ended_at (border_pushes (snd (end_war 1 (example_player 1 100) (example_world 5000)))) = [None]"
  by (simp add: example_defs route_defs now_Date_def new_Date_def logw_def split_def Let_def)

subsection \<open>Starting a push\<close>

lemma create_push_insufficient:
  "resources_p pl < 10 \<Longrightarrow>
   create_push_then_consume new_id pl cid war target_id w = (Reply 400 ''Insufficient Resources'', w)"
  by (simp add: create_push_then_consume_def)

lemma BorderPush_create_row_world:
  "border_pushes (snd (BorderPush_create_row new_id warId playerId source target strength terrain consumed w))
     = border_pushes w @ [fst (BorderPush_create_row new_id warId playerId source target strength terrain consumed w)]"
  "players (snd (BorderPush_create_row new_id warId playerId source target strength terrain consumed w)) = players w"
  "journal (snd (BorderPush_create_row new_id warId playerId source target strength terrain consumed w))
     = journal w @ [BorderPush_create new_id]"
  by (simp_all add: BorderPush_create_row_def split_def Let_def)

lemma BorderPush_create_row_fields:
  "id_b (fst (BorderPush_create_row new_id warId playerId source target strength terrain consumed w)) = new_id"
  "player_id (fst (BorderPush_create_row new_id warId playerId source target strength terrain consumed w)) = playerId"
  "status (fst (BorderPush_create_row new_id warId playerId source target strength terrain consumed w)) = Active"
  "resources_consumed (fst (BorderPush_create_row new_id warId playerId source target strength terrain consumed w)) = consumed"
  by (simp_all add: BorderPush_create_row_def beforeCreate_b_def split_def Let_def)

lemma create_push_sufficient:
  assumes "10 \<le> resources_p pl"
  shows "fst (create_push_then_consume new_id pl cid war target_id w) = Reply 201 ''Border push initiated''
    \<and> journal (snd (create_push_then_consume new_id pl cid war target_id w))
        = journal w @ [BorderPush_create new_id, Player_save (id_p pl)]
    \<and> players (snd (create_push_then_consume new_id pl cid war target_id w))
        = map (\<lambda>r. if id_p r = id_p pl then pl\<lparr>resources_p := resources_p pl - 10\<rparr> else r) (players w)
    \<and> (\<exists>bp. border_pushes (snd (create_push_then_consume new_id pl cid war target_id w))
                = border_pushes w @ [bp]
              \<and> id_b bp = new_id \<and> player_id bp = id_p pl \<and> status bp = Active
              \<and> resources_consumed bp = 10)"
  using assms
  by (simp add: create_push_then_consume_def consume_and_save_def consumeResources_p_def
        split_def Let_def BorderPush_create_row_world BorderPush_create_row_fields)

lemma border_push_reaches:
  "border_push cooldown new_id pl target_id w = (Reply 400 ''Bad Request'', w)
   \<or> border_push cooldown new_id pl target_id w = (Reply 429 ''Rate Limited'', w\<lparr>clock := stl (clock w)\<rparr>)
   \<or> (\<exists>cid war. border_push cooldown new_id pl target_id w
                    = create_push_then_consume new_id pl cid war target_id w)
   \<or> (\<exists>cid war. border_push cooldown new_id pl target_id w
                    = create_push_then_consume new_id pl cid war target_id (w\<lparr>clock := stl (clock w)\<rparr>))"
  by (simp add: border_push_def split_def Let_def split: option.splits) blast


lemma border_push_insufficient:
  assumes "resources_p pl < 10"
  shows "border_pushes (snd (border_push cooldown new_id pl target_id w)) = border_pushes w
     \<and> players (snd (border_push cooldown new_id pl target_id w)) = players w
     \<and> journal (snd (border_push cooldown new_id pl target_id w)) = journal w
     \<and> fst (border_push cooldown new_id pl target_id w) \<noteq> Reply 201 ''Border push initiated''"
  using border_push_reaches[of cooldown new_id pl target_id w]
  by (auto simp: create_push_insufficient[OF assms])

lemma border_push_created:
  assumes "fst (border_push cooldown new_id pl target_id w) = Reply 201 ''Border push initiated''"
  shows "10 \<le> resources_p pl
    \<and> journal (snd (border_push cooldown new_id pl target_id w))
        = journal w @ [BorderPush_create new_id, Player_save (id_p pl)]
    \<and> players (snd (border_push cooldown new_id pl target_id w))
        = map (\<lambda>r. if id_p r = id_p pl then pl\<lparr>resources_p := resources_p pl - 10\<rparr> else r) (players w)
    \<and> (\<exists>bp. border_pushes (snd (border_push cooldown new_id pl target_id w))
                = border_pushes w @ [bp]
              \<and> id_b bp = new_id \<and> player_id bp = id_p pl \<and> status bp = Active
              \<and> resources_consumed bp = 10)"
proof -
  have r: "10 \<le> resources_p pl"
    using border_push_insufficient[of pl cooldown new_id target_id w] assms by force
  from border_push_reaches[of cooldown new_id pl target_id w] assms
  consider cid war where "border_push cooldown new_id pl target_id w
                    = create_push_then_consume new_id pl cid war target_id w"
    | cid war where "border_push cooldown new_id pl target_id w
                    = create_push_then_consume new_id pl cid war target_id (w\<lparr>clock := stl (clock w)\<rparr>)"
    by auto
  then show ?thesis
  proof cases
    case 1
    show ?thesis
      using create_push_sufficient[OF r, of new_id cid war target_id w] r by (simp add: 1)
  next
    case 2
    show ?thesis
      using create_push_sufficient[OF r, of new_id cid war target_id "w\<lparr>clock := stl (clock w)\<rparr>"] r
      by (simp add: 2)
  qed
qed

lemma border_push_insufficient_reply:
  assumes "resources_p pl < 10" and "country_id_p pl = Some cid"
    and "find (\<lambda>r. aggressor_country_id r = cid \<and> defender_country_id r = target_id
                     \<and> status_w r = WarActive) (wars w) = Some war"
    and "case latest_by started_at (filter (\<lambda>r. player_id r = id_p pl) (border_pushes w)) of
           None \<Rightarrow> True
         | Some lastPush \<Rightarrow> status lastPush \<noteq> Active
                             \<and> cooldown \<le> shd (clock w) - started_at lastPush"
  shows "fst (border_push cooldown new_id pl target_id w) = Reply 400 ''Insufficient Resources''"
  using assms(2-4)
  by (auto simp: border_push_def split_def Let_def create_push_insufficient[OF assms(1)]
      split: option.splits)

text \<open>
  C6, as the code has it.  The route compares the player's balance with the cost of 10
  before it creates anything: with a balance below 10 no push is created, no player row
  changes and nothing is written, whatever else holds, and the answer is
  \<open>Insufficient Resources\<close> when the checks before it pass (an active war against the
  target led by the player's country, and a last push, if any, that is over and older than
  the cooldown).  When the route answers 201, the balance was at least 10, the push was
  inserted first and the debit of 10 was saved after it, as the journal shows.
\<close>

theorem border_push_checks_creates_then_debits:
  "(resources_p pl < 10 \<longrightarrow>
      border_pushes (snd (border_push cooldown new_id pl target_id w)) = border_pushes w
      \<and> players (snd (border_push cooldown new_id pl target_id w)) = players w
      \<and> journal (snd (border_push cooldown new_id pl target_id w)) = journal w
      \<and> fst (border_push cooldown new_id pl target_id w) \<noteq> Reply 201 ''Border push initiated'')
   \<and> (resources_p pl < 10 \<and> country_id_p pl = Some cid
       \<and> find (\<lambda>r. aggressor_country_id r = cid \<and> defender_country_id r = target_id
                     \<and> status_w r = WarActive) (wars w) = Some war
       \<and> (case latest_by started_at (filter (\<lambda>r. player_id r = id_p pl) (border_pushes w)) of
             None \<Rightarrow> True
           | Some lastPush \<Rightarrow> status lastPush \<noteq> Active
                               \<and> cooldown \<le> shd (clock w) - started_at lastPush) \<longrightarrow>
      fst (border_push cooldown new_id pl target_id w) = Reply 400 ''Insufficient Resources'')
   \<and> (fst (border_push cooldown new_id pl target_id w) = Reply 201 ''Border push initiated'' \<longrightarrow>
      10 \<le> resources_p pl
      \<and> journal (snd (border_push cooldown new_id pl target_id w))
          = journal w @ [BorderPush_create new_id, Player_save (id_p pl)]
      \<and> players (snd (border_push cooldown new_id pl target_id w))
          = map (\<lambda>r. if id_p r = id_p pl then pl\<lparr>resources_p := resources_p pl - 10\<rparr> else r) (players w)
      \<and> (\<exists>bp. border_pushes (snd (border_push cooldown new_id pl target_id w))
                  = border_pushes w @ [bp]
                \<and> id_b bp = new_id \<and> player_id bp = id_p pl \<and> status bp = Active
                \<and> resources_consumed bp = 10))"
  using border_push_insufficient[of pl cooldown new_id target_id w]
    border_push_created[of cooldown new_id pl target_id w]
    border_push_insufficient_reply[of pl cid target_id w war cooldown new_id]
  by blast

theorem border_push_checks_creates_then_debits_witness:
  "resources_p (example_player 1 5) < 10
   \<and> fst (border_push 5000 9 (example_player 1 5) 2 ((example_world 5000)\<lparr>border_pushes := []\<rparr>))
       = Reply 400 ''Insufficient Resources''
   \<and> border_pushes (snd (border_push 5000 9 (example_player 1 5) 2
                            ((example_world 5000)\<lparr>border_pushes := []\<rparr>))) = []
   \<and> fst (border_push 5000 9 (example_player 1 100) 2 ((example_world 5000)\<lparr>border_pushes := []\<rparr>))
       = Reply 201 ''Border push initiated''
   \<and> map resources_p (players (snd (border_push 5000 9 (example_player 1 100) 2
                            ((example_world 5000)\<lparr>border_pushes := []\<rparr>)))) = [90, 100]"
  using border_push_checks_creates_then_debits
          [of "example_player 1 5" 5000 9 2 "(example_world 5000)\<lparr>border_pushes := []\<rparr>" 1 example_war]
        border_push_checks_creates_then_debits
          [of "example_player 1 100" 5000 9 2 "(example_world 5000)\<lparr>border_pushes := []\<rparr>" 1 example_war]
  by (simp add: example_defs route_defs now_Date_def new_Date_def logw_def split_def Let_def)

text \<open>
  C6, the order the specification states, fails on the sample world: player 1 holds 100,
  the route answers 201, and the journal has the insert of the push before the save of the
  debit.
\<close>

theorem border_push_creates_before_debit:
  "fst (border_push 5000 9 (example_player 1 100) 2 ((example_world 5000)\<lparr>border_pushes := []\<rparr>))
     = Reply 201 ''Border push initiated''
   \<and> journal (snd (border_push 5000 9 (example_player 1 100) 2
                      ((example_world 5000)\<lparr>border_pushes := []\<rparr>)))
     = [BorderPush_create 9, Player_save 1]"
  by (simp add: example_defs route_defs now_Date_def new_Date_def logw_def split_def Let_def)

subsection \<open>One active war per pair of countries\<close>

lemma same_pair_sym:
  "same_pair (aggressor_country_id r) (defender_country_id r) r'
   = same_pair (aggressor_country_id r') (defender_country_id r') r"
  by (auto simp: same_pair_def)

lemma same_ordered_sym:
  "same_ordered (aggressor_country_id r) (defender_country_id r) r'
   = same_ordered (aggressor_country_id r') (defender_country_id r') r"
  by (auto simp: same_ordered_def)

lemma no_dup_append:
  assumes sym: "\<And>r r'. same (aggressor_country_id r) (defender_country_id r) r'
                  = same (aggressor_country_id r') (defender_country_id r') r"
    and "no_active_duplicate same ws"
    and "find (\<lambda>r. same (aggressor_country_id new) (defender_country_id new) r
                    \<and> status_w r = WarActive) ws = None"
  shows "no_active_duplicate same (ws @ [new])"
  using assms(2,3)
proof (induction ws)
  case Nil
  then show ?case by simp
next
  case (Cons r rs)
  have t: "no_active_duplicate same (rs @ [new])"
    using Cons by (simp split: if_splits)
  have h: "status_w r = WarActive \<Longrightarrow>
           \<not> same (aggressor_country_id r) (defender_country_id r) new"
    using Cons.prems(2) sym[of new r] by (simp split: if_splits)
  show ?case
    using Cons.prems(1) t h by (auto simp: find_None_iff)
qed

lemma no_dup_replace:
  assumes "no_active_duplicate same ws" and "status_w e \<noteq> WarActive"
  shows "no_active_duplicate same (map (\<lambda>r. if id_w r = k then e else r) ws)"
  using assms(1)
proof (induction ws)
  case Nil
  then show ?case by simp
next
  case (Cons r rs)
  have t: "no_active_duplicate same (map (\<lambda>r. if id_w r = k then e else r) rs)"
    using Cons by simp
  show ?case
    using Cons.prems t assms(2) by (auto simp: find_None_iff)
qed

lemma no_dup_nth_less:
  "no_active_duplicate same ws \<Longrightarrow> i < j \<Longrightarrow> j < length ws \<Longrightarrow>
   status_w (ws ! i) = WarActive \<Longrightarrow> status_w (ws ! j) = WarActive \<Longrightarrow>
   \<not> same (aggressor_country_id (ws ! i)) (defender_country_id (ws ! i)) (ws ! j)"
proof (induction ws arbitrary: i j)
  case Nil
  then show ?case by simp
next
  case (Cons r rs)
  from Cons.prems(2) obtain j' where j: "j = Suc j'" by (cases j) auto
  show ?case
  proof (cases i)
    case 0
    have "rs ! j' \<in> set rs" using Cons.prems(3) j by simp
    then show ?thesis
      using Cons.prems(1,4,5) 0 j by (auto simp: find_None_iff)
  next
    case (Suc i')
    then show ?thesis
      using Cons.IH[of i' j'] Cons.prems j by simp
  qed
qed

lemma no_dup_nth:
  assumes sym: "\<And>r r'. same (aggressor_country_id r) (defender_country_id r) r'
                  = same (aggressor_country_id r') (defender_country_id r') r"
    and "no_active_duplicate same ws" and "i < length ws" and "j < length ws" and "i \<noteq> j"
    and "status_w (ws ! i) = WarActive" and "status_w (ws ! j) = WarActive"
  shows "\<not> same (aggressor_country_id (ws ! i)) (defender_country_id (ws ! i)) (ws ! j)"
proof (cases "i < j")
  case True
  then show ?thesis using no_dup_nth_less[of same ws i j] assms(2-) by simp
next
  case False
  then have "j < i" using assms(5) by simp
  then have "\<not> same (aggressor_country_id (ws ! j)) (defender_country_id (ws ! j)) (ws ! i)"
    using no_dup_nth_less[of same ws j i] assms(2-) by simp
  then show ?thesis using sym[of "ws ! i" "ws ! j"] by simp
qed

text \<open>A write that creates no war and makes none active keeps the wars without duplicates.\<close>

lemma no_dup_no_war_created:
  assumes same: "\<And>a d r r'. aggressor_country_id r' = aggressor_country_id r \<Longrightarrow>
                   defender_country_id r' = defender_country_id r \<Longrightarrow> same a d r' = same a d r"
    and "no_war_created ws ws'" and "no_active_duplicate same ws"
  shows "no_active_duplicate same ws'"
  using assms(2,3) unfolding no_war_created_def
proof (induction rule: list_all2_induct)
  case Nil
  show ?case by simp
next
  case (Cons r rs r' rs')
  have t: "no_active_duplicate same rs'"
    using Cons by simp
  have f: "find (\<lambda>x. status_w x = WarActive
                      \<and> same (aggressor_country_id r') (defender_country_id r') x) rs' = None"
    if a: "status_w r' = WarActive"
  proof -
    have ra: "status_w r = WarActive" using Cons.hyps(1) a by auto
    then have n: "\<forall>x\<in>set rs. \<not> (status_w x = WarActive
                      \<and> same (aggressor_country_id r) (defender_country_id r) x)"
      using Cons.prems by (simp add: find_None_iff)
    have "\<not> (status_w y = WarActive
               \<and> same (aggressor_country_id r') (defender_country_id r') y)"
      if y: "y \<in> set rs'" for y
    proof
      assume ya: "status_w y = WarActive
               \<and> same (aggressor_country_id r') (defender_country_id r') y"
      from y obtain i where i: "i < length rs'" "rs' ! i = y"
        by (auto simp: in_set_conv_nth)
      let ?x = "rs ! i"
      have l: "length rs = length rs'"
        using Cons.hyps(2) by (rule list_all2_lengthD)
      have x: "aggressor_country_id y = aggressor_country_id ?x"
        "defender_country_id y = defender_country_id ?x"
        "status_w y = status_w ?x \<or> status_w y \<noteq> WarActive"
        using list_all2_nthD2[OF Cons.hyps(2) i(1)] i(2) by simp_all
      have xs: "?x \<in> set rs" using i(1) l by simp
      have "status_w ?x = WarActive" using x(3) ya by auto
      moreover have "same (aggressor_country_id r) (defender_country_id r) ?x"
        using ya same[OF x(1,2), of "aggressor_country_id r'" "defender_country_id r'"] Cons.hyps(1)
        by simp
      ultimately show False using n xs by blast
    qed
    then show ?thesis by (simp add: find_None_iff)
  qed
  show ?case using t f by simp
qed

lemma keys_no_war_created: "map war_key ws' = map war_key ws \<Longrightarrow> no_war_created ws ws'"
  unfolding no_war_created_def
  by (induction ws arbitrary: ws') (auto simp: war_key_def map_eq_Cons_conv)

lemma same_ordered_rows:
  "aggressor_country_id r' = aggressor_country_id r \<Longrightarrow>
   defender_country_id r' = defender_country_id r \<Longrightarrow> same_ordered a d r' = same_ordered a d r"
  by (simp add: same_ordered_def)

lemma same_pair_rows:
  "aggressor_country_id r' = aggressor_country_id r \<Longrightarrow>
   defender_country_id r' = defender_country_id r \<Longrightarrow> same_pair a d r' = same_pair a d r"
  by (simp add: same_pair_def)

lemma no_dup_keys:
  "keys w' = keys w \<Longrightarrow> no_active_duplicate same_ordered (wars w) \<Longrightarrow>
   no_active_duplicate same_ordered (wars w')"
  using no_dup_no_war_created[of same_ordered "wars w" "wars w'", OF same_ordered_rows]
    keys_no_war_created[of "wars w'" "wars w"]
  by blast

text \<open>What each handler does to the table of wars.\<close>

lemma War_create_row_wars:
  "wars (snd (War_create_row new_id a d who w)) = wars w
   \<or> (\<exists>new. fst (War_create_row new_id a d who w) = Inr new
         \<and> wars (snd (War_create_row new_id a d who w)) = wars w @ [new]
         \<and> aggressor_country_id new = a \<and> defender_country_id new = d
         \<and> status_w new = WarActive
         \<and> find (\<lambda>r. same_ordered a d r \<and> status_w r = WarActive) (wars w) = None)"
  by (simp add: War_create_row_def afterCreate_w_def split_def Let_def same_ordered_def)

lemma create_war_wars:
  "wars (snd (create_war new_id pl src tgt w)) = wars w
   \<or> (\<exists>new. wars (snd (create_war new_id pl src tgt w)) = wars w @ [new]
         \<and> aggressor_country_id new = id_c src \<and> defender_country_id new = id_c tgt
         \<and> status_w new = WarActive
         \<and> find (\<lambda>r. same_ordered (id_c src) (id_c tgt) r \<and> status_w r = WarActive) (wars w) = None)"
proof -
  obtain r w1 where c: "War_create_row new_id (id_c src) (id_c tgt) (id_p pl) w = (r, w1)"
    by (cases "War_create_row new_id (id_c src) (id_c tgt) (id_p pl) w")
  show ?thesis
    using War_create_row_wars[of new_id "id_c src" "id_c tgt" "id_p pl" w] c
    by (cases r) (auto simp: create_war_def increment_wars_declared_def)
qed

lemma check_cooldown_passed:
  "wars (snd (check_cooldown cooldown pl src tgt w)) = wars w"
  "fst (check_cooldown cooldown pl src tgt w) = Inr x \<Longrightarrow> x = (src, tgt)"
  by (auto simp: check_cooldown_def split_def Let_def split: option.splits if_splits)

lemma declare_war_lookup_wars:
  "wars (snd (declare_war_lookup cooldown pl target_id w)) = wars w"
  by (simp add: declare_war_lookup_def check_cooldown_passed(1) split: option.splits)

lemma declare_war_lookup_passed:
  assumes "declare_war_lookup cooldown pl target_id w = (Inr (src, tgt), w')"
  shows "existingWar (id_c src) (id_c tgt) w = None"
proof -
  have "fst (declare_war_lookup cooldown pl target_id w) = Inr (src, tgt)"
    using assms by simp
  then show ?thesis
    using check_cooldown_passed(2)[of cooldown pl _ _ w "(src, tgt)"]
    by (auto simp: declare_war_lookup_def split: option.splits if_splits)
qed

lemma declare_war_wars:
  "wars (snd (declare_war cooldown new_id pl target_id w)) = wars w
   \<or> (\<exists>new. wars (snd (declare_war cooldown new_id pl target_id w)) = wars w @ [new]
         \<and> status_w new = WarActive
         \<and> find (\<lambda>r. same_pair (aggressor_country_id new) (defender_country_id new) r
                        \<and> status_w r = WarActive) (wars w) = None)"
proof -
  obtain a w1 where l: "declare_war_lookup cooldown pl target_id w = (a, w1)"
    by (cases "declare_war_lookup cooldown pl target_id w")
  have w1: "wars w1 = wars w"
    using declare_war_lookup_wars[of cooldown pl target_id w] l by simp
  show ?thesis
  proof (cases a)
    case (Inl answer)
    then show ?thesis using l w1 by (simp add: declare_war_def)
  next
    case (Inr st)
    obtain src tgt where st: "st = (src, tgt)" by (cases st)
    have e: "find (\<lambda>r. same_pair (id_c src) (id_c tgt) r \<and> status_w r = WarActive) (wars w) = None"
      using declare_war_lookup_passed[of cooldown pl target_id w src tgt w1] l Inr st
      by (simp add: existingWar_def)
    have d: "declare_war cooldown new_id pl target_id w = create_war new_id pl src tgt w1"
      using l Inr st by (simp add: declare_war_def)
    show ?thesis
      using create_war_wars[of new_id pl src tgt w1] e w1 unfolding d by auto
  qed
qed

lemma beforeUpdate_w_status:
  "status_w (fst (beforeUpdate_w c war w)) = status_w war"
  "wars (snd (beforeUpdate_w c war w)) = wars w"
  by (simp_all add: beforeUpdate_w_def split_def Let_def)

lemma reset_at_war_wars: "wars (reset_at_war k w) = wars w"
  by (simp add: reset_at_war_def split: option.splits)

lemma afterUpdate_w_wars: "wars (afterUpdate_w c war w) = wars w"
  by (simp add: afterUpdate_w_def Let_def reset_at_war_wars increment_c_def split: option.splits)

lemma save_w_wars:
  "wars (snd (snd (save_w prev this w))) = wars w
   \<or> wars (snd (snd (save_w prev this w)))
       = map (\<lambda>r. if id_w r = id_w this then fst (save_w prev this w) else r) (wars w)"
  "status_w (fst (save_w prev this w)) = status_w this"
  by (simp_all add: save_w_def split_def Let_def afterUpdate_w_wars beforeUpdate_w_status
        beforeUpdate_w_frame)

lemma endWar_wars:
  "wars (snd (endWar who win war w)) = wars w
   \<or> (\<exists>e. status_w e = WarEnded
          \<and> wars (snd (endWar who win war w)) = map (\<lambda>r. if id_w r = id_w war then e else r) (wars w))"
proof (cases "status_w war = WarActive")
  case False
  then show ?thesis by (simp add: endWar_def)
next
  case True
  let ?this1 = "war\<lparr>status_w := WarEnded, ended_by := Some who, winner_country_id := win,
                      ended_at_w := Some (shd (clock w))\<rparr>"
  let ?w1 = "w\<lparr>clock := stl (clock w)\<rparr>"
  obtain t e v where s: "save_w war ?this1 ?w1 = (t, e, v)"
    by (cases "save_w war ?this1 ?w1") auto
  have st: "status_w t = WarEnded"
    using save_w_wars(2)[of war ?this1 ?w1] s by simp
  have ws: "wars v = wars w \<or> wars v = map (\<lambda>r. if id_w r = id_w war then t else r) (wars w)"
    using save_w_wars(1)[of war ?this1 ?w1] unfolding s fst_conv snd_conv by simp
  have "snd (endWar who win war w) = v"
    using True s by (cases e) (simp_all add: endWar_def split_def Let_def)
  then show ?thesis using st ws by auto
qed

lemma end_war_wars:
  "wars (snd (end_war warId pl w)) = wars w
   \<or> (\<exists>e k. status_w e = WarEnded
          \<and> wars (snd (end_war warId pl w)) = map (\<lambda>r. if id_w r = k then e else r) (wars w))"
proof (cases "findByPk_w warId w")
  case None
  then show ?thesis by (simp add: end_war_def)
next
  case (Some war)
  obtain r w1 where e: "endWar (id_p pl) None war w = (r, w1)"
    by (cases "endWar (id_p pl) None war w")
  have "wars (BorderPush_update_cancelled k w1) = wars w1" for k
    by (simp add: BorderPush_update_cancelled_def)
  then show ?thesis
    using endWar_wars[of "id_p pl" None war w] Some e
    by (cases r) (auto simp: end_war_def)
qed

lemma save_b_keys: "keys (snd (snd (save_b prev p w))) = keys w"
proof -
  have "wars (snd (beforeUpdate_b c q v)) = wars v" for c q v
    by (simp add: beforeUpdate_b_def split_def Let_def)
  then show ?thesis
    by (simp add: save_b_def afterUpdate_b_def split_def Let_def war_key_def comp_def)
qed

lemma calc_keys: "keys (snd (calculateCurrentProgress p w)) = keys w"
  by (simp add: calculateCurrentProgress_def split_def Let_def)

lemma updateProgress_keys: "keys (snd (snd (updateProgress p w))) = keys w"
  by (simp add: updateProgress_def split_def Let_def save_b_keys calc_keys)

lemma stopPush_keys: "keys (snd (stopPush b p w)) = keys w"
proof -
  obtain q e w1 where u: "updateProgress p w = (q, e, w1)" by (cases "updateProgress p w") auto
  have k1: "keys w1 = keys w" using updateProgress_keys[of p w] u by simp
  let ?q3 = "q\<lparr>status := (if b then Successful else Cancelled), ended_at := Some (shd (clock w1))\<rparr>"
  let ?w2 = "w1\<lparr>clock := stl (clock w1)\<rparr>"
  obtain q4 e4 w3 where s: "save_b q ?q3 ?w2 = (q4, e4, w3)" by (cases "save_b q ?q3 ?w2") auto
  have k3: "keys w3 = keys w" using save_b_keys[of q ?q3 ?w2] s k1 by simp
  show ?thesis
    using u s k1 k3 by (cases e; cases e4) (simp_all add: stopPush_def split_def Let_def)
qed

lemma tick_push_keys: "keys (snd (tick_push push w)) = keys w"
proof -
  obtain pr w1 where c: "calculateCurrentProgress push w = (pr, w1)"
    by (cases "calculateCurrentProgress push w")
  have k1: "keys w1 = keys w" using calc_keys[of push w] c by simp
  obtain r w2 where s: "stopPush True (snd pr) w1 = (r, w2)"
    by (cases "stopPush True (snd pr) w1")
  have k2: "keys w2 = keys w" using stopPush_keys[of True "snd pr" w1] s k1 by simp
  show ?thesis
    using c s k1 k2 by (cases r) (simp_all add: tick_push_def split_def Let_def)
qed

lemma tick_pushes_keys: "keys (tick_pushes ps w) = keys w"
proof (induction ps arbitrary: w)
  case Nil
  show ?case by simp
next
  case (Cons push rest)
  obtain r w1 where t: "tick_push push w = (r, w1)" by (cases "tick_push push w")
  have "keys w1 = keys w" using tick_push_keys[of push w] t by simp
  then show ?case using t Cons.IH[of w1] by (cases r) simp_all
qed

lemma border_push_wars: "wars (snd (border_push cooldown new_id pl target_id w)) = wars w"
proof -
  have "wars (snd (create_push_then_consume new_id pl cid war target_id w')) = wars w'" for cid war w'
    by (simp add: create_push_then_consume_def consume_and_save_def consumeResources_p_def
          BorderPush_create_row_def split_def Let_def)
  then show ?thesis
    using border_push_reaches[of cooldown new_id pl target_id w] by auto
qed

text \<open>
  Whatever the interleaving, the unique index keeps the active wars of one aggressor against
  one defender apart.
\<close>

lemma reachable_no_ordered_duplicate:
  assumes "reachable w ps"
  shows "no_active_duplicate same_ordered (wars w)"
  using assms
proof (induction rule: reachable.induct)
  case (initial w)
  then show ?case by simp
next
  case (refused w ps cooldown pl target_id answer w')
  then show ?case
    using declare_war_lookup_wars[of cooldown pl target_id w] by simp
next
  case (looked_up w ps cooldown pl target_id src tgt w' new_id)
  then show ?case
    using declare_war_lookup_wars[of cooldown pl target_id w] by simp
next
  case (created w ps new_id pl src tgt)
  then show ?case
    using create_war_wars[of new_id pl src tgt w]
      no_dup_append[of same_ordered "wars w", OF same_ordered_sym]
    by auto
next
  case (ended w ps warId pl)
  then show ?case
    using end_war_wars[of warId pl w] by (auto simp: no_dup_replace)
next
  case (pushed w ps cooldown new_id pl target_id)
  then show ?case by (simp add: border_push_wars)
next
  case (joined w ps p)
  then show ?case
    using no_dup_keys[of "snd (snd (addSupportingSoldier p w))" w]
    by (simp add: addSupportingSoldier_def Let_def save_b_keys)
next
  case (defended w ps p)
  then show ?case
    using no_dup_keys[of "snd (snd (addDefendingSoldier p w))" w]
    by (simp add: addDefendingSoldier_def Let_def save_b_keys)
next
  case (ticked w ps)
  then show ?case
    using no_dup_keys[of "conflict_tick w" w]
    by (simp add: conflict_tick_def tick_pushes_keys)
next
  case (other w ps w')
  then show ?case
    using no_dup_no_war_created[of same_ordered "wars w" "wars w'", OF same_ordered_rows] by blast
qed

text \<open>A declaration that nothing interrupts keeps the pairs of countries at war apart.\<close>

lemma declare_war_keeps_pairs:
  assumes "no_active_duplicate same_pair (wars w)"
  shows "no_active_duplicate same_pair (wars (snd (declare_war cooldown new_id pl target_id w)))"
  using declare_war_wars[of cooldown new_id pl target_id w] assms
    no_dup_append[of same_pair "wars w", OF same_pair_sym]
  by auto


lemma find_id_c: "find (\<lambda>r. id_c r = k) cs = Some c \<Longrightarrow> id_c c = k"
  by (induction cs) (auto split: if_splits)

lemma declare_war_existing:
  assumes "r \<in> set (wars w)" and "status_w r = WarActive" and "same_pair cid target_id r"
    and "country_id_p pl = Some cid"
  shows "declare_war_lookup cooldown pl target_id w
           = (Inl (fst (declare_war cooldown new_id pl target_id w)), w)
       \<and> snd (declare_war cooldown new_id pl target_id w) = w
       \<and> fst (declare_war cooldown new_id pl target_id w) \<noteq> Reply 201 ''War declared successfully''
       \<and> ((case findByPk_c cid w of None \<Rightarrow> False | Some src \<Rightarrow> owner_id_c src = Some (id_p pl))
           \<and> (case findByPk_c target_id w of None \<Rightarrow> False | Some tgt \<Rightarrow> is_claimed_c tgt)
           \<and> cid \<noteq> target_id
           \<longrightarrow> fst (declare_war cooldown new_id pl target_id w) = Reply 409 ''Conflict'')"
proof -
  have ex: "existingWar cid target_id w \<noteq> None"
    using assms(1-3) by (auto simp: existingWar_def find_None_iff)
  have ids: "findByPk_c cid w = Some src \<Longrightarrow> findByPk_c target_id w = Some tgt \<Longrightarrow>
             existingWar (id_c src) (id_c tgt) w \<noteq> None" for src tgt
    using ex find_id_c[of cid "countries w" src] find_id_c[of target_id "countries w" tgt]
    by (simp add: findByPk_c_def)
  show ?thesis
  proof (cases "findByPk_c cid w")
    case None
    then show ?thesis using assms(4) by (simp add: declare_war_def declare_war_lookup_def)
  next
    case src: (Some src)
    show ?thesis
    proof (cases "findByPk_c target_id w")
      case None
      then show ?thesis using assms(4) src by (simp add: declare_war_def declare_war_lookup_def)
    next
      case tgt: (Some tgt)
      have i: "id_c src = cid" "id_c tgt = target_id"
        using src tgt find_id_c[of cid "countries w" src] find_id_c[of target_id "countries w" tgt]
        by (simp_all add: findByPk_c_def)
      show ?thesis
        using assms(4) src tgt ids[OF src tgt] i
        by (simp add: declare_war_def declare_war_lookup_def)
    qed
  qed
qed

text \<open>
  C4, as the code has it.  In every reachable state, whatever the interleaving of the
  requests, no two active wars have the same aggressor and the same defender: this is what
  the unique index compares.  A declaration that runs from its lookup to its
  \<^verbatim>\<open>War.create\<close> with no other request in between adds no second active war between two
  countries, in either direction.  When an active war exists between the requester's
  country and the target, in either direction, the lookup of \<^verbatim>\<open>declare-war\<close> refuses the
  request: no war is created and nothing changes; the answer is \<open>Conflict\<close> when the
  request passes the checks that come first (the requester owns the source country, the
  target exists, is claimed and is not the source), and the error of the first failing
  check otherwise.
\<close>

theorem at_most_one_active_war_per_pair:
  assumes "reachable w ps"
  shows "(\<forall>i<length (wars w). \<forall>j<length (wars w).
            i \<noteq> j \<and> status_w (wars w ! i) = WarActive \<and> status_w (wars w ! j) = WarActive \<longrightarrow>
            \<not> same_ordered (aggressor_country_id (wars w ! i)) (defender_country_id (wars w ! i))
                            (wars w ! j))
       \<and> (no_active_duplicate same_pair (wars w) \<longrightarrow>
            no_active_duplicate same_pair (wars (snd (declare_war cooldown new_id pl target_id w))))
       \<and> (\<forall>r\<in>set (wars w).
            status_w r = WarActive \<and> same_pair cid target_id r \<and> country_id_p pl = Some cid \<longrightarrow>
            declare_war_lookup cooldown pl target_id w
              = (Inl (fst (declare_war cooldown new_id pl target_id w)), w)
            \<and> snd (declare_war cooldown new_id pl target_id w) = w
            \<and> fst (declare_war cooldown new_id pl target_id w) \<noteq> Reply 201 ''War declared successfully''
            \<and> ((case findByPk_c cid w of None \<Rightarrow> False | Some src \<Rightarrow> owner_id_c src = Some (id_p pl))
                \<and> (case findByPk_c target_id w of None \<Rightarrow> False | Some tgt \<Rightarrow> is_claimed_c tgt)
                \<and> cid \<noteq> target_id
                \<longrightarrow> fst (declare_war cooldown new_id pl target_id w) = Reply 409 ''Conflict''))"
proof (intro conjI allI impI ballI)
  fix i j
  assume "i < length (wars w)" "j < length (wars w)"
    "i \<noteq> j \<and> status_w (wars w ! i) = WarActive \<and> status_w (wars w ! j) = WarActive"
  then show "\<not> same_ordered (aggressor_country_id (wars w ! i)) (defender_country_id (wars w ! i))
                         (wars w ! j)"
    using no_dup_nth[of same_ordered "wars w" i j, OF same_ordered_sym
            reachable_no_ordered_duplicate[OF assms]]
    by simp
next
  assume "no_active_duplicate same_pair (wars w)"
  then show "no_active_duplicate same_pair (wars (snd (declare_war cooldown new_id pl target_id w)))"
    by (rule declare_war_keeps_pairs)
next
  fix r
  assume r: "r \<in> set (wars w)"
    "status_w r = WarActive \<and> same_pair cid target_id r \<and> country_id_p pl = Some cid"
  note d = declare_war_existing[of r w cid target_id pl cooldown new_id]
  show "declare_war_lookup cooldown pl target_id w
          = (Inl (fst (declare_war cooldown new_id pl target_id w)), w)"
    using d r by blast
  show "snd (declare_war cooldown new_id pl target_id w) = w" using d r by blast
  show "fst (declare_war cooldown new_id pl target_id w) \<noteq> Reply 201 ''War declared successfully''"
    using d r by blast
  assume "(case findByPk_c cid w of None \<Rightarrow> False | Some src \<Rightarrow> owner_id_c src = Some (id_p pl))
                \<and> (case findByPk_c target_id w of None \<Rightarrow> False | Some tgt \<Rightarrow> is_claimed_c tgt)
                \<and> cid \<noteq> target_id"
  then show "fst (declare_war cooldown new_id pl target_id w) = Reply 409 ''Conflict''"
    using d r by blast
qed

text \<open>The sample worlds are reachable.\<close>

lemma reachable_declared:
  assumes "reachable w []"
  shows "reachable (snd (declare_war cooldown new_id pl target_id w)) []"
proof -
  obtain a w1 where l: "declare_war_lookup cooldown pl target_id w = (a, w1)"
    by (cases "declare_war_lookup cooldown pl target_id w")
  show ?thesis
  proof (cases a)
    case (Inl answer)
    have "reachable w1 []"
      using reachable.refused[OF assms, of cooldown pl target_id answer w1] l Inl by simp
    then show ?thesis using l Inl by (simp add: declare_war_def)
  next
    case (Inr st)
    obtain src tgt where st: "st = (src, tgt)" by (cases st)
    have "reachable w1 ([] @ [(new_id, pl, src, tgt)])"
      using reachable.looked_up[OF assms, of cooldown pl target_id src tgt w1 new_id] l Inr st
      by simp
    then have "reachable (snd (create_war new_id pl src tgt w1))
                 (remove1 (new_id, pl, src, tgt) ([] @ [(new_id, pl, src, tgt)]))"
      by (rule reachable.created) simp
    then show ?thesis using l Inr st by (simp add: declare_war_def)
  qed
qed

lemma reachable_war_world: "wars w = [example_war] \<Longrightarrow> reachable w []"
proof -
  assume w: "wars w = [example_war]"
  let ?w0 = "(example_world 0)\<lparr>wars := [], border_pushes := []\<rparr>"
  have "reachable ?w0 []" by (rule reachable.initial) simp
  then have "reachable (snd (declare_war 300000 1 (example_player 1 100) 2 ?w0)) []"
    by (rule reachable_declared)
  moreover have "wars (snd (declare_war 300000 1 (example_player 1 100) 2 ?w0)) = [example_war]"
    by (simp add: example_defs route_defs now_Date_def new_Date_def logw_def split_def Let_def)
  ultimately show ?thesis
    using w
    by (intro reachable.other[of "snd (declare_war 300000 1 (example_player 1 100) 2 ?w0)" "[]" w])
       (simp_all add: no_war_created_def)
qed

lemma two_wars_world_wars:
  "wars two_wars_world = [example_war, example_war\<lparr>id_w := 2, defender_country_id := 3\<rparr>]"
  by (simp add: two_wars_world_def peace_world_def example_defs route_defs now_Date_def new_Date_def
        logw_def split_def Let_def)

lemma one_war_world_wars:
  "wars (snd (declare_war 0 1 (example_player 1 100) 2 peace_world)) = [example_war]"
  by (simp add: peace_world_def example_defs route_defs now_Date_def new_Date_def
        logw_def split_def Let_def)

lemma reachable_two_wars_world:
  "reachable (snd (declare_war 0 1 (example_player 1 100) 2 peace_world)) []"
  "reachable two_wars_world []"
  unfolding two_wars_world_def
  by (intro reachable_declared reachable.initial, simp add: peace_world_def)+

theorem at_most_one_active_war_per_pair_witness:
  "reachable two_wars_world []
   \<and> keys two_wars_world = [(1, 2, WarActive), (1, 3, WarActive)]
   \<and> \<not> same_ordered (aggressor_country_id (wars two_wars_world ! 0))
                      (defender_country_id (wars two_wars_world ! 0)) (wars two_wars_world ! 1)
   \<and> no_active_duplicate same_pair (wars (snd (declare_war 0 1 (example_player 1 100) 2 peace_world)))
   \<and> no_active_duplicate same_pair (wars two_wars_world)
   \<and> declare_war 300000 9 (example_player 1 100) 2 two_wars_world = (Reply 409 ''Conflict'', two_wars_world)
   \<and> declare_war 300000 9 (example_player 2 100) 1 two_wars_world = (Reply 409 ''Conflict'', two_wars_world)"
proof -
  note r = reachable_two_wars_world
  note serial = at_most_one_active_war_per_pair[OF r(1), of 0 2 "example_player 1 100" 3 1]
  note first = at_most_one_active_war_per_pair[OF r(2), of 300000 9 "example_player 1 100" 2 1]
  note second = at_most_one_active_war_per_pair[OF r(2), of 300000 9 "example_player 2 100" 1 2]
  have k: "keys two_wars_world = [(1, 2, WarActive), (1, 3, WarActive)]"
    unfolding two_wars_world_wars by (simp add: war_key_def example_defs)
  have i: "0 < length (wars two_wars_world)" "1 < length (wars two_wars_world)"
    "(0::nat) \<noteq> 1 \<and> status_w (wars two_wars_world ! 0) = WarActive
       \<and> status_w (wars two_wars_world ! 1) = WarActive"
    unfolding two_wars_world_wars by (simp_all add: example_defs)
  have o: "\<not> same_ordered (aggressor_country_id (wars two_wars_world ! 0))
                      (defender_country_id (wars two_wars_world ! 0)) (wars two_wars_world ! 1)"
    using first i by blast
  have n1: "no_active_duplicate same_pair (wars (snd (declare_war 0 1 (example_player 1 100) 2 peace_world)))"
    unfolding one_war_world_wars by simp
  have n2: "no_active_duplicate same_pair (wars two_wars_world)"
    using serial n1 unfolding two_wars_world_def by blast
  have m: "example_war \<in> set (wars two_wars_world)"
    unfolding two_wars_world_wars by simp
  have h1: "status_w example_war = WarActive \<and> same_pair 1 2 example_war
            \<and> country_id_p (example_player 1 100) = Some 1"
    by (simp add: example_defs same_pair_def)
  have h2: "status_w example_war = WarActive \<and> same_pair 2 1 example_war
            \<and> country_id_p (example_player 2 100) = Some 2"
    by (simp add: example_defs same_pair_def)
  have c1: "(case findByPk_c 1 two_wars_world of None \<Rightarrow> False
             | Some src \<Rightarrow> owner_id_c src = Some (id_p (example_player 1 100)))
            \<and> (case findByPk_c 2 two_wars_world of None \<Rightarrow> False | Some tgt \<Rightarrow> is_claimed_c tgt)
            \<and> (1::nat) \<noteq> 2"
    by (simp add: two_wars_world_def peace_world_def example_defs route_defs now_Date_def
          new_Date_def logw_def split_def Let_def)
  have c2: "(case findByPk_c 2 two_wars_world of None \<Rightarrow> False
             | Some src \<Rightarrow> owner_id_c src = Some (id_p (example_player 2 100)))
            \<and> (case findByPk_c 1 two_wars_world of None \<Rightarrow> False | Some tgt \<Rightarrow> is_claimed_c tgt)
            \<and> (2::nat) \<noteq> 1"
    by (simp add: two_wars_world_def peace_world_def example_defs route_defs now_Date_def
          new_Date_def logw_def split_def Let_def)
  have "snd (declare_war 300000 9 (example_player 1 100) 2 two_wars_world) = two_wars_world
        \<and> fst (declare_war 300000 9 (example_player 1 100) 2 two_wars_world) = Reply 409 ''Conflict''"
    using first m h1 c1 by blast
  then have d1: "declare_war 300000 9 (example_player 1 100) 2 two_wars_world
                   = (Reply 409 ''Conflict'', two_wars_world)"
    by (simp add: prod_eq_iff)
  have "snd (declare_war 300000 9 (example_player 2 100) 1 two_wars_world) = two_wars_world
        \<and> fst (declare_war 300000 9 (example_player 2 100) 1 two_wars_world) = Reply 409 ''Conflict''"
    using second m h2 c2 by blast
  then have d2: "declare_war 300000 9 (example_player 2 100) 1 two_wars_world
                   = (Reply 409 ''Conflict'', two_wars_world)"
    by (simp add: prod_eq_iff)
  show ?thesis
    using r(2) k o n1 n2 d1 d2 by blast
qed

text \<open>
  C4, the sentence of the specification, fails twice.  When the owners of countries 1 and 2
  declare war on each other and both lookups run before either \<^verbatim>\<open>War.create\<close>, both wars
  are created: the index tells the war of 1 on 2 from the war of 2 on 1, and two active
  wars are between the same two countries.  And \<open>Conflict\<close> is not the answer whenever an
  active war exists: after the soldiers of country 2 have all left, it is unclaimed, the
  war between 1 and 2 is still active, and the owner of country 1 declaring war on 2 again
  gets \<open>Bad Request\<close>.
\<close>

theorem declare_war_raced_and_unclaimed_target:
  "reachable raced_world []
   \<and> keys raced_world = [(1, 2, WarActive), (2, 1, WarActive)]
   \<and> \<not> no_active_duplicate same_pair (wars raced_world)
   \<and> reachable unclaimed_world []
   \<and> example_war \<in> set (wars unclaimed_world) \<and> status_w example_war = WarActive
   \<and> same_pair 1 2 example_war
   \<and> fst (declare_war 300000 9 (example_player 1 100) 2 unclaimed_world) = Reply 400 ''Bad Request''
   \<and> Reply 400 ''Bad Request'' \<noteq> Reply 409 ''Conflict''"
proof -
  let ?c = "\<lambda>k. (example_country k)\<lparr>is_at_war_c := False, active_wars_c := 0\<rparr>"
  let ?a = "(1, example_player 1 100, ?c 1, ?c 2)"
  let ?b = "(2, example_player 2 100, ?c 2, ?c 1)"
  have l1: "declare_war_lookup 0 (example_player 1 100) 2 peace_world = (Inr (?c 1, ?c 2), peace_world)"
    by (simp add: peace_world_def example_defs route_defs)
  have l2: "declare_war_lookup 0 (example_player 2 100) 1 peace_world = (Inr (?c 2, ?c 1), peace_world)"
    by (simp add: peace_world_def example_defs route_defs)
  have "reachable peace_world []"
    by (rule reachable.initial) (simp add: peace_world_def)
  then have "reachable peace_world ([] @ [?a])"
    using l1 by (rule reachable.looked_up)
  then have "reachable peace_world (([] @ [?a]) @ [?b])"
    using l2 by (rule reachable.looked_up)
  then have "reachable (snd (create_war 1 (example_player 1 100) (?c 1) (?c 2) peace_world))
               (remove1 ?a (([] @ [?a]) @ [?b]))"
    by (rule reachable.created) simp
  then have "reachable (snd (create_war 1 (example_player 1 100) (?c 1) (?c 2) peace_world)) [?b]"
    by simp
  then have "reachable (snd (create_war 2 (example_player 2 100) (?c 2) (?c 1)
                (snd (create_war 1 (example_player 1 100) (?c 1) (?c 2) peace_world))))
               (remove1 ?b [?b])"
    by (rule reachable.created) simp
  moreover have "raced_world = snd (create_war 2 (example_player 2 100) (?c 2) (?c 1)
                (snd (create_war 1 (example_player 1 100) (?c 1) (?c 2) peace_world)))"
    by (simp only: raced_world_def l1 l2 prod.case sum.case)
  ultimately have r: "reachable raced_world []"
    by simp
  have k: "keys raced_world = [(1, 2, WarActive), (2, 1, WarActive)]"
    by (simp add: raced_world_def peace_world_def example_defs route_defs now_Date_def new_Date_def
          logw_def split_def Let_def war_key_def)
  have n: "\<not> no_active_duplicate same_pair (wars raced_world)"
    by (simp add: raced_world_def peace_world_def example_defs route_defs now_Date_def new_Date_def
          logw_def split_def Let_def)
  have u: "reachable unclaimed_world []"
    by (rule reachable_war_world) (simp add: unclaimed_world_def war_world_def example_defs)
  show ?thesis
    using r k n u by (simp add: unclaimed_world_def war_world_def example_defs route_defs)
qed

end
